theory Spec2Isabelle
  imports Complex_Main "HOL-Library.Word" "HOL-Library.Multiset" "HOL-Library.Product_Lexorder"
    "HOL-Library.Log_Nat"
begin

section \<open>Data model\<close>

text \<open>
  The collector exists in two variants. The aggregate-aware one (ticker of one second,
  seven columns) is the one the HTTP handlers \<open>getMetrics\<close>, \<open>startBenchmark\<close> and
  \<open>resetDB\<close> of most statements below belong to; the simple one (ticker of thirty seconds,
  five columns) is embedded at the end with the suffix \<open>_simple\<close>.

  Go's \<open>int64\<close> is a 64-bit word read in two's complement (\<open>sint\<close>); \<open>+=\<close> wraps.
  A \<open>time.Time\<close> is an integer, the wall-clock reading that the driver stores in the
  \<open>timestamp\<close> column, and \<open>ORDER BY timestamp\<close> compares these integers; the wall
  clock is not bound to advance from one reading to the next. \<open>float64\<close> is a datatype
  of its own, below.
\<close>

type_synonym int64 = "64 word"

subsection \<open>float64\<close>

text \<open>
  A \<open>float64\<close> is a finite binary fraction, an infinity or NaN. Every operation rounds
  its exact result to 53 significant bits, to nearest and ties to even (\<open>fl\<close>). The
  exponent range and the sign of zero are not modelled: the collector only converts
  \<open>int64\<close> values, divides two of them and multiplies by 100, which stays between
  \<open>2 powi -63\<close> and \<open>2 powi 70\<close> in magnitude, far inside the range of normal numbers.
\<close>

datatype float64 = Finite rat | PosInf | NegInf | NaN

definition round_half_even :: "rat \<Rightarrow> int" where
  "round_half_even q =
     (let f = \<lfloor>q\<rfloor>; r = q - of_int f
      in if r < 1/2 then f else if 1/2 < r then f + 1 else if even f then f else f + 1)"

text \<open>\<open>binade q\<close> is the exponent \<open>e\<close> with \<open>2 powi e \<le> \<bar>q\<bar> < 2 powi (e + 1)\<close>.\<close>

definition binade :: "rat \<Rightarrow> int" where
  "binade q =
     (let (n, d) = quotient_of \<bar>q\<bar>; e = bitlen n - bitlen d
      in if 2 powi e \<le> \<bar>q\<bar> then e else e - 1)"

definition fl :: "rat \<Rightarrow> rat" where
  "fl q = (if q = 0 then 0
     else let s = 2 powi (binade q - 52) in of_int (round_half_even (q / s)) * s)"

definition float64_of_int64 :: "int64 \<Rightarrow> float64" where
  "float64_of_int64 w = Finite (fl (of_int (sint w)))"

fun f64_div :: "float64 \<Rightarrow> float64 \<Rightarrow> float64" where
  "f64_div NaN y = NaN"
| "f64_div x NaN = NaN"
| "f64_div (Finite a) (Finite b) =
     (if b = 0 then (if a = 0 then NaN else if 0 < a then PosInf else NegInf)
      else Finite (fl (a / b)))"
| "f64_div (Finite a) y = Finite 0"
| "f64_div PosInf (Finite b) = (if b < 0 then NegInf else PosInf)"
| "f64_div NegInf (Finite b) = (if b < 0 then PosInf else NegInf)"
| "f64_div x y = NaN"

fun f64_mul :: "float64 \<Rightarrow> float64 \<Rightarrow> float64" where
  "f64_mul NaN y = NaN"
| "f64_mul x NaN = NaN"
| "f64_mul (Finite a) (Finite b) = Finite (fl (a * b))"
| "f64_mul (Finite a) PosInf = (if a = 0 then NaN else if 0 < a then PosInf else NegInf)"
| "f64_mul (Finite a) NegInf = (if a = 0 then NaN else if 0 < a then NegInf else PosInf)"
| "f64_mul PosInf (Finite b) = (if b = 0 then NaN else if 0 < b then PosInf else NegInf)"
| "f64_mul NegInf (Finite b) = (if b = 0 then NaN else if 0 < b then NegInf else PosInf)"
| "f64_mul PosInf PosInf = PosInf"
| "f64_mul NegInf NegInf = PosInf"
| "f64_mul x y = NegInf"

text \<open>\<open>float64(used) / float64(total) * 100\<close>, as both percentages are computed.\<close>

definition percentage :: "int64 \<Rightarrow> int64 \<Rightarrow> float64" where
  "percentage used capacity =
     f64_mul (f64_div (float64_of_int64 used) (float64_of_int64 capacity)) (Finite 100)"

subsection \<open>Rows\<close>

text \<open>
  The struct \<open>MetricsData\<close>; a row of the table holds the seven values of one. The
  engine keeps a NaN that is handed to \<open>INSERT\<close> as NULL and an infinity as it is: in a
  row of the table, \<open>NaN\<close> stands for that NULL.
\<close>

record MetricsData =
  Timestamp :: int
  NodeName :: string
  CpuUsage :: float64
  MemoryUsage :: int64
  IsBenchmark :: bool
  ClusterCpuUsage :: float64
  ClusterTotalCpu :: int64

subsection \<open>The SQLite table\<close>

text \<open>
  Table \<open>metrics\<close> has \<open>id INTEGER PRIMARY KEY AUTOINCREMENT\<close>: a row is its rowid
  paired with the column values, rows are kept in insertion order, and the table
  \<open>sqlite_sequence\<close> holds for \<open>metrics\<close> either no entry (\<open>None\<close>, as after
  \<open>CREATE TABLE\<close>) or the largest rowid handed out so far.
\<close>

record 'r database =
  metrics :: "(int \<times> 'r) list"
  sqlite_sequence :: "int option"

definition initDB :: "'r database" where
  "initDB = \<lparr>metrics = [], sqlite_sequence = None\<rparr>"

definition max_rowid :: "(int \<times> 'r) list \<Rightarrow> int" where
  "max_rowid rs = foldr max (map fst rs) 0"

definition next_rowid :: "'r database \<Rightarrow> int" where
  "next_rowid d =
     max (max_rowid (metrics d)) (case sqlite_sequence d of None \<Rightarrow> 0 | Some n \<Rightarrow> n) + 1"

definition sql_insert :: "'r \<Rightarrow> 'r database \<Rightarrow> 'r database" where
  "sql_insert r d =
     \<lparr>metrics = metrics d @ [(next_rowid d, r)], sqlite_sequence = Some (next_rowid d)\<rparr>"

definition insert_all :: "'r list \<Rightarrow> 'r database \<Rightarrow> 'r database" where
  "insert_all rs d = foldl (\<lambda>d' r. sql_insert r d') d rs"

text \<open>
  One \<open>INSERT\<close> statement that inserts the rows a \<open>SELECT\<close> returns. At its end the
  engine writes the sequence value back when \<open>sqlite_sequence\<close> has no entry for the
  table, also when no row was selected: the entry then holds 0.
\<close>

definition sequence_value :: "'r database \<Rightarrow> int" where
  "sequence_value d = (case sqlite_sequence d of None \<Rightarrow> 0 | Some n \<Rightarrow> n)"

definition sql_insert_rows :: "'r list \<Rightarrow> 'r database \<Rightarrow> 'r database" where
  "sql_insert_rows rs d =
     (insert_all rs d)\<lparr>sqlite_sequence := Some (sequence_value (insert_all rs d))\<rparr>"

definition sql_delete_metrics :: "'r database \<Rightarrow> 'r database" where
  "sql_delete_metrics d = d\<lparr>metrics := []\<rparr>"

definition sql_delete_sequence :: "'r database \<Rightarrow> 'r database" where
  "sql_delete_sequence d = d\<lparr>sqlite_sequence := None\<rparr>"

text \<open>
  A statement either fails with the driver's error text, leaving the database as it was,
  or runs. Whether it fails is an input of the model (\<open>Some e\<close>: it fails with \<open>e\<close>).
\<close>

definition exec :: "string option \<Rightarrow> ('r database \<Rightarrow> 'r database) \<Rightarrow> 'r database
    \<Rightarrow> string + 'r database" where
  "exec err stmt d = (case err of Some e \<Rightarrow> Inl e | None \<Rightarrow> Inr (stmt d))"

text \<open>The primary key holds in a table when no rowid occurs twice.\<close>

definition primary_key :: "'r database \<Rightarrow> bool" where
  "primary_key d = distinct (map fst (metrics d))"

subsection \<open>How a step of the process ends\<close>

text \<open>
  \<open>log.Printf\<close> writes a line and the function goes on; \<open>log.Fatal\<close> writes it and
  ends the process, as a panic does. A step of the program therefore either hands a state
  on or is fatal.
\<close>

datatype 'a flow = Continue 'a | Fatal string

definition log_Fatal :: "string \<Rightarrow> 'a flow" where
  "log_Fatal e = Fatal e"

subsection \<open>HTTP responses\<close>

text \<open>
  \<open>c.Status n\<close> sends no body; \<open>c.JSON n v\<close> sends the JSON encoding of \<open>v\<close>:
  \<open>gin.H{"error": e}\<close> is \<open>JError e\<close>, a slice of rows is \<open>JArray\<close> and the nil slice
  is \<open>JNull\<close>. The encoding of a slice of rows can fail; that of an error cannot.
\<close>

datatype json = JNull | JError string | JArray "MetricsData list"

record response =
  status :: nat
  body :: "json option"

definition c_Status :: "nat \<Rightarrow> response" where
  "c_Status n = \<lparr>status = n, body = None\<rparr>"

definition c_JSON :: "nat \<Rightarrow> json \<Rightarrow> response" where
  "c_JSON n v = \<lparr>status = n, body = Some v\<rparr>"

definition StatusOK :: nat where "StatusOK = 200"
definition StatusCreated :: nat where "StatusCreated = 201"
definition StatusInternalServerError :: nat where "StatusInternalServerError = 500"

section \<open>resetDB\<close>

text \<open>
  \<open>db.Begin\<close> opens a transaction on a working copy; \<open>tx.Exec\<close> changes the copy;
  \<open>tx.Rollback\<close> drops it and \<open>tx.Commit\<close> either installs it or fails and keeps the
  database as it was before \<open>Begin\<close>. The four errors are inputs.
\<close>

record reset_errors =
  begin_err :: "string option"
  delete_err :: "string option"
  sequence_err :: "string option"
  commit_err :: "string option"

definition resetDB :: "reset_errors \<Rightarrow> 'r database \<Rightarrow> response \<times> 'r database" where
  "resetDB errs d =
     (case begin_err errs of
        Some e \<Rightarrow>
          (c_JSON StatusInternalServerError (JError (''Failed to start transaction: '' @ e)), d)
      | None \<Rightarrow>
          (case exec (delete_err errs) sql_delete_metrics d of
             Inl e \<Rightarrow>
               (c_JSON StatusInternalServerError (JError (''Failed to delete records: '' @ e)), d)
           | Inr tx1 \<Rightarrow>
               (case exec (sequence_err errs) sql_delete_sequence tx1 of
                  Inl e \<Rightarrow>
                    (c_JSON StatusInternalServerError
                       (JError (''Failed to reset sequence: '' @ e)), d)
                | Inr tx2 \<Rightarrow>
                    (case commit_err errs of
                       Some e \<Rightarrow>
                         (c_JSON StatusInternalServerError
                            (JError (''Failed to commit transaction: '' @ e)), d)
                     | None \<Rightarrow> (c_Status StatusOK, tx2)))))"

definition no_reset_error :: "reset_errors \<Rightarrow> bool" where
  "no_reset_error errs \<longleftrightarrow>
     begin_err errs = None \<and> delete_err errs = None \<and> sequence_err errs = None
     \<and> commit_err errs = None"

section \<open>getMetrics\<close>

text \<open>
  \<open>ORDER BY timestamp DESC\<close> names no second key, so the engine is free in the order of
  rows with equal timestamps. The model makes that freedom an input, \<open>tie\<close>, which ranks
  rowids: rows come by timestamp descending and, among equal timestamps, by \<open>tie\<close>
  ascending (and in table order where \<open>tie\<close> is equal too). \<open>scan_order\<close> is the order a
  plain table scan feeds the sorter with, \<open>reverse_scan_order\<close> its opposite.
\<close>

definition order_by_desc :: "('r \<Rightarrow> int) \<Rightarrow> (int \<Rightarrow> int) \<Rightarrow> (int \<times> 'r) list
    \<Rightarrow> (int \<times> 'r) list" where
  "order_by_desc col tie rs = sort_key (\<lambda>ir. (- col (snd ir), tie (fst ir))) rs"

definition scan_order :: "int \<Rightarrow> int" where
  "scan_order i = i"

definition reverse_scan_order :: "int \<Rightarrow> int" where
  "reverse_scan_order i = - i"

text \<open>
  \<open>var metrics []MetricsData\<close> starts as the nil slice (\<open>None\<close>); \<open>append\<close> makes it a
  slice with elements. \<open>encoding/json\<close> writes the nil slice as \<open>null\<close> and a slice as
  an array, and refuses a \<open>float64\<close> that is infinite or NaN. \<open>c.JSON\<close> sets the status
  and writes the encoding; when the encoder refuses the value, nothing is written.
\<close>

definition go_append :: "'a list option \<Rightarrow> 'a \<Rightarrow> 'a list option" where
  "go_append sl x = (case sl of None \<Rightarrow> Some [x] | Some xs \<Rightarrow> Some (xs @ [x]))"

fun encodable :: "float64 \<Rightarrow> bool" where
  "encodable (Finite q) = True"
| "encodable x = False"

definition finite_percentages :: "MetricsData \<Rightarrow> bool" where
  "finite_percentages m \<longleftrightarrow> encodable (CpuUsage m) \<and> encodable (ClusterCpuUsage m)"

definition encoding :: "MetricsData list option \<Rightarrow> json" where
  "encoding sl = (case sl of None \<Rightarrow> JNull | Some xs \<Rightarrow> JArray xs)"

definition go_elems :: "'a list option \<Rightarrow> 'a list" where
  "go_elems sl = (case sl of None \<Rightarrow> [] | Some xs \<Rightarrow> xs)"

definition marshal :: "MetricsData list option \<Rightarrow> json option" where
  "marshal sl =
     (if list_all finite_percentages (go_elems sl) then Some (encoding sl) else None)"

definition c_JSON_metrics :: "nat \<Rightarrow> MetricsData list option \<Rightarrow> response" where
  "c_JSON_metrics n sl = \<lparr>status = n, body = marshal sl\<rparr>"

text \<open>
  \<open>rows.Scan\<close> into the struct fails on a row that holds NULL in \<open>cpu_usage\<close> or in
  \<open>cluster_cpu_usage\<close>, the earlier column first, since the fields are \<open>float64\<close>.
\<close>

definition rows_Scan :: "MetricsData \<Rightarrow> string + MetricsData" where
  \<open>rows_Scan m =
     (if CpuUsage m = NaN then
        Inl ''sql: Scan error on column index 2, name "cpu_usage": converting NULL to float64 is unsupported''
      else if ClusterCpuUsage m = NaN then
        Inl ''sql: Scan error on column index 5, name "cluster_cpu_usage": converting NULL to float64 is unsupported''
      else Inr m)\<close>

text \<open>
  The loop over \<open>rows.Next()\<close>: \<open>scan_err k\<close> is the error of \<open>rows.Scan\<close> on the
  \<open>k\<close>-th row of the result when it fails there for a reason that is not in the row.
\<close>

fun scan_rows :: "(nat \<Rightarrow> string option) \<Rightarrow> nat \<Rightarrow> MetricsData list
    \<Rightarrow> MetricsData list option \<Rightarrow> string + MetricsData list option" where
  "scan_rows serr k [] sl = Inr sl"
| "scan_rows serr k (row # rest) sl =
     (case serr k of
        Some e \<Rightarrow> Inl e
      | None \<Rightarrow>
          (case rows_Scan row of
             Inl e \<Rightarrow> Inl e
           | Inr m \<Rightarrow> scan_rows serr (Suc k) rest (go_append sl m)))"

record query_errors =
  query_err :: "string option"
  scan_err :: "nat \<Rightarrow> string option"

definition getMetrics :: "(int \<Rightarrow> int) \<Rightarrow> query_errors \<Rightarrow> MetricsData database \<Rightarrow> response" where
  "getMetrics tie errs d =
     (case query_err errs of
        Some e \<Rightarrow> c_JSON StatusInternalServerError (JError e)
      | None \<Rightarrow>
          (case scan_rows (scan_err errs) 0
                  (map snd (order_by_desc Timestamp tie (metrics d))) None of
             Inl e \<Rightarrow> c_JSON StatusInternalServerError (JError e)
           | Inr sl \<Rightarrow> c_JSON_metrics StatusOK sl))"


section \<open>startBenchmark\<close>

text \<open>
  The inner query \<open>SELECT id FROM metrics WHERE is_benchmark = 0 ORDER BY timestamp DESC
  LIMIT 1\<close>, the outer \<open>SELECT ... FROM metrics WHERE id IN (...)\<close> with the constant 1 in
  the place of \<open>is_benchmark\<close>, and the \<open>INSERT\<close> of what it returns. The rows are read
  before the first one is inserted.
\<close>

definition latest_plain_id :: "(int \<Rightarrow> int) \<Rightarrow> (int \<times> MetricsData) list \<Rightarrow> int list" where
  "latest_plain_id tie rs =
     map fst (take 1 (order_by_desc Timestamp tie (filter (\<lambda>ir. \<not> IsBenchmark (snd ir)) rs)))"

definition benchmark_rows :: "(int \<Rightarrow> int) \<Rightarrow> (int \<times> MetricsData) list \<Rightarrow> MetricsData list" where
  "benchmark_rows tie rs =
     map (\<lambda>ir. (snd ir)\<lparr>IsBenchmark := True\<rparr>)
       (filter (\<lambda>ir. fst ir \<in> set (latest_plain_id tie rs)) rs)"

definition insert_select :: "(int \<Rightarrow> int) \<Rightarrow> MetricsData database \<Rightarrow> MetricsData database" where
  "insert_select tie d = sql_insert_rows (benchmark_rows tie (metrics d)) d"

definition startBenchmark :: "(int \<Rightarrow> int) \<Rightarrow> string option \<Rightarrow> MetricsData database
    \<Rightarrow> response \<times> MetricsData database" where
  "startBenchmark tie err d =
     (case exec err (insert_select tie) d of
        Inl e \<Rightarrow> (c_JSON StatusInternalServerError (JError e), d)
      | Inr d' \<Rightarrow> (c_Status StatusCreated, d'))"

section \<open>collectMetrics\<close>

text \<open>
  One entry of \<open>nodes.Items\<close>: the node's name, \<open>Usage.Cpu().MilliValue()\<close> and
  \<open>Usage.Memory().Value()\<close>.
\<close>

record NodeMetrics =
  Name :: string
  UsageCpu :: int64
  UsageMemory :: int64

text \<open>
  What the world answers during one tick: the result of listing the node metrics, of
  creating the clientset, of \<open>Nodes().Get\<close> for a name in the first (1) and in the second
  (2) loop (the capacity \<open>Status.Capacity.Cpu().MilliValue()\<close>, or the error), the clock
  read for the row of a node, and the error of that row's \<open>INSERT\<close>, if it fails. Node
  names are unique in a listing, so each is asked once per loop.
\<close>

record tick =
  list_nodes :: "string + NodeMetrics list"
  new_clientset :: "string option"
  get_node :: "nat \<Rightarrow> string \<Rightarrow> string + int64"
  time_now :: "string \<Rightarrow> int"
  insert_err :: "string \<Rightarrow> string option"

record 'r state =
  db :: "'r database"
  logs :: "string list"

definition log_Printf :: "string \<Rightarrow> string \<Rightarrow> 'r state \<Rightarrow> 'r state" where
  "log_Printf msg e s = s\<lparr>logs := logs s @ [msg @ e]\<rparr>"

text \<open>First loop: the cluster totals, over the nodes whose \<open>Get\<close> succeeds.\<close>

fun gather_totals :: "tick \<Rightarrow> NodeMetrics list \<Rightarrow> int64 \<times> int64 \<times> MetricsData state
    \<Rightarrow> int64 \<times> int64 \<times> MetricsData state" where
  "gather_totals t [] acc = acc"
| "gather_totals t (nodeMetric # rest) (clusterTotalCPU, clusterUsedCPU, s) =
     (case get_node t 1 (Name nodeMetric) of
        Inl e \<Rightarrow>
          gather_totals t rest
            (clusterTotalCPU, clusterUsedCPU, log_Printf ''Error getting node info: '' e s)
      | Inr capacity \<Rightarrow>
          gather_totals t rest
            (clusterTotalCPU + capacity, clusterUsedCPU + UsageCpu nodeMetric, s))"

text \<open>Second loop: one \<open>INSERT\<close> for each node whose \<open>Get\<close> succeeds this time.\<close>

definition metrics_row :: "tick \<Rightarrow> float64 \<Rightarrow> int64 \<Rightarrow> NodeMetrics \<Rightarrow> int64 \<Rightarrow> MetricsData" where
  "metrics_row t clusterCpuPercentage clusterTotalCPU nodeMetric nodeTotalCPU =
     \<lparr>Timestamp = time_now t (Name nodeMetric),
      NodeName = Name nodeMetric,
      CpuUsage = percentage (UsageCpu nodeMetric) nodeTotalCPU,
      MemoryUsage = UsageMemory nodeMetric,
      IsBenchmark = False,
      ClusterCpuUsage = clusterCpuPercentage,
      ClusterTotalCpu = clusterTotalCPU\<rparr>"

fun store_rows :: "tick \<Rightarrow> float64 \<Rightarrow> int64 \<Rightarrow> NodeMetrics list \<Rightarrow> MetricsData state
    \<Rightarrow> MetricsData state" where
  "store_rows t pct tot [] s = s"
| "store_rows t pct tot (nodeMetric # rest) s =
     (case get_node t 2 (Name nodeMetric) of
        Inl e \<Rightarrow> store_rows t pct tot rest s
      | Inr nodeTotalCPU \<Rightarrow>
          (case exec (insert_err t (Name nodeMetric))
                  (sql_insert (metrics_row t pct tot nodeMetric nodeTotalCPU)) (db s) of
             Inl e \<Rightarrow> store_rows t pct tot rest (log_Printf ''Error inserting metrics: '' e s)
           | Inr d' \<Rightarrow> store_rows t pct tot rest (s\<lparr>db := d'\<rparr>)))"

text \<open>
  The body of the \<open>for range ticker.C\<close> loop. Each \<open>continue\<close>, and the end of the
  body, hands the state on to the next tick; \<open>cycle\<close> is the state handed on. The loop
  itself runs over the ticks and would stop at a fatal step.
\<close>

definition loop_body :: "tick \<Rightarrow> MetricsData state \<Rightarrow> MetricsData state flow" where
  "loop_body t s =
     (case list_nodes t of
        Inl e \<Rightarrow> Continue (log_Printf ''Error collecting metrics: '' e s)
      | Inr items \<Rightarrow>
          (case new_clientset t of
             Some e \<Rightarrow> Continue (log_Printf ''Error creating clientset: '' e s)
           | None \<Rightarrow>
               (case gather_totals t items (0, 0, s) of
                  (clusterTotalCPU, clusterUsedCPU, s1) \<Rightarrow>
                    Continue (store_rows t (percentage clusterUsedCPU clusterTotalCPU)
                      clusterTotalCPU items s1))))"

definition cycle :: "tick \<Rightarrow> MetricsData state \<Rightarrow> MetricsData state" where
  "cycle t s = (case loop_body t s of Continue s' \<Rightarrow> s' | Fatal e \<Rightarrow> s)"


text \<open>
  Before the loop is started, \<open>main\<close> opens the database and creates the table, then
  reads the cluster configuration and creates the metrics client; each of the four is
  fatal when it fails. \<open>file\<close> is the table as the database file holds it.
\<close>

record startup =
  sql_Open :: "string option"
  create_table :: "string option"
  InClusterConfig :: "string option"
  NewForConfig :: "string option"

definition main_startup :: "startup \<Rightarrow> 'r database \<Rightarrow> 'r state flow" where
  "main_startup st file =
     (case sql_Open st of
        Some e \<Rightarrow> log_Fatal e
      | None \<Rightarrow>
          (case create_table st of
             Some e \<Rightarrow> log_Fatal e
           | None \<Rightarrow>
               (case InClusterConfig st of
                  Some e \<Rightarrow> log_Fatal e
                | None \<Rightarrow>
                    (case NewForConfig st of
                       Some e \<Rightarrow> log_Fatal e
                     | None \<Rightarrow> Continue \<lparr>db = file, logs = []\<rparr>))))"

section \<open>The simple variant\<close>

text \<open>
  Five columns, \<open>cpu_usage\<close> an integer, a ticker of thirty seconds, no aggregation, and
  a \<open>resetDB\<close> that is one \<open>DELETE FROM metrics\<close> on the connection itself. The table is
  declared with the same \<open>id INTEGER PRIMARY KEY AUTOINCREMENT\<close>.
\<close>

record MetricsData_simple =
  Timestamp_simple :: int
  NodeName_simple :: string
  CpuUsage_simple :: int64
  MemoryUsage_simple :: int64
  IsBenchmark_simple :: bool

record tick_simple =
  list_nodes_simple :: "string + NodeMetrics list"
  time_now_simple :: "string \<Rightarrow> int"
  insert_err_simple :: "string \<Rightarrow> string option"

fun insert_nodes_simple :: "tick_simple \<Rightarrow> NodeMetrics list \<Rightarrow> MetricsData_simple state
    \<Rightarrow> MetricsData_simple state" where
  "insert_nodes_simple t [] s = s"
| "insert_nodes_simple t (node # rest) s =
     (case exec (insert_err_simple t (Name node))
             (sql_insert
                \<lparr>Timestamp_simple = time_now_simple t (Name node),
                 NodeName_simple = Name node,
                 CpuUsage_simple = UsageCpu node,
                 MemoryUsage_simple = UsageMemory node,
                 IsBenchmark_simple = False\<rparr>) (db s) of
        Inl e \<Rightarrow> insert_nodes_simple t rest (log_Printf ''Error inserting metrics: '' e s)
      | Inr d' \<Rightarrow> insert_nodes_simple t rest (s\<lparr>db := d'\<rparr>))"

definition cycle_simple :: "tick_simple \<Rightarrow> MetricsData_simple state \<Rightarrow> MetricsData_simple state" where
  "cycle_simple t s =
     (case list_nodes_simple t of
        Inl e \<Rightarrow> log_Printf ''Error collecting metrics: '' e s
      | Inr items \<Rightarrow> insert_nodes_simple t items s)"

fun collectMetrics_simple :: "tick_simple list \<Rightarrow> MetricsData_simple state
    \<Rightarrow> MetricsData_simple state" where
  "collectMetrics_simple [] s = s"
| "collectMetrics_simple (t # ts) s = collectMetrics_simple ts (cycle_simple t s)"

definition resetDB_simple :: "string option \<Rightarrow> 'r database \<Rightarrow> response \<times> 'r database" where
  "resetDB_simple err d =
     (case exec err sql_delete_metrics d of
        Inl e \<Rightarrow> (c_JSON StatusInternalServerError (JError e), d)
      | Inr d' \<Rightarrow> (c_Status StatusOK, d'))"

section \<open>The operations as the specification words them\<close>


definition spec_markBenchmark :: "MetricsData database \<Rightarrow> MetricsData database" where
  "spec_markBenchmark d =
     sql_insert_rows
       (map (\<lambda>ir. (snd ir)\<lparr>IsBenchmark := True\<rparr>)
          (take 1 (sort_key (\<lambda>ir. - fst ir)
             (filter (\<lambda>ir. \<not> IsBenchmark (snd ir)) (metrics d))))) d"

section \<open>Auxiliary notions and sample data\<close>

definition node_names :: "MetricsData database \<Rightarrow> string list" where
  "node_names d = map (\<lambda>ir. NodeName (snd ir)) (metrics d)"

definition no_errors :: query_errors where
  "no_errors = \<lparr>query_err = None, scan_err = (\<lambda>k. None)\<rparr>"

definition sample :: "int \<Rightarrow> string \<Rightarrow> bool \<Rightarrow> MetricsData" where
  "sample ts name bench =
     \<lparr>Timestamp = ts, NodeName = name, CpuUsage = Finite 50, MemoryUsage = 1024,
      IsBenchmark = bench, ClusterCpuUsage = Finite 25, ClusterTotalCpu = 4000\<rparr>"

text \<open>
  A float is within the tolerance of an exact value when it is finite and at most
  \<open>1e-9\<close> away from it; an integer fits \<open>int64\<close> when it is in the signed 64-bit range.
\<close>

definition within_tolerance :: "float64 \<Rightarrow> rat \<Rightarrow> bool" where
  "within_tolerance f x = (case f of Finite v \<Rightarrow> \<bar>v - x\<bar> \<le> 1 / 10 ^ 9 | _ \<Rightarrow> False)"

definition fits_int64 :: "int \<Rightarrow> bool" where
  "fits_int64 k \<longleftrightarrow> - (2 ^ 63) \<le> k \<and> k < 2 ^ 63"

text \<open>
  The nodes whose \<open>Get\<close> succeeds in a loop, each with the capacity it returned, in the
  order of the listing; of those of the second loop, the ones whose \<open>INSERT\<close> succeeds;
  and the two sums of the first loop.
\<close>

definition resolved :: "tick \<Rightarrow> nat \<Rightarrow> NodeMetrics list \<Rightarrow> (NodeMetrics \<times> int64) list" where
  "resolved t pass items =
     concat (map (\<lambda>nm. case get_node t pass (Name nm) of Inl e \<Rightarrow> [] | Inr c \<Rightarrow> [(nm, c)]) items)"

definition written :: "tick \<Rightarrow> NodeMetrics list \<Rightarrow> (NodeMetrics \<times> int64) list" where
  "written t items = filter (\<lambda>nc. insert_err t (Name (fst nc)) = None) (resolved t 2 items)"

definition cluster_total :: "tick \<Rightarrow> NodeMetrics list \<Rightarrow> int64" where
  "cluster_total t items = sum_list (map snd (resolved t 1 items))"

definition cluster_used :: "tick \<Rightarrow> NodeMetrics list \<Rightarrow> int64" where
  "cluster_used t items = sum_list (map (\<lambda>nc. UsageCpu (fst nc)) (resolved t 1 items))"

definition capacity_sum :: "(NodeMetrics \<times> int64) list \<Rightarrow> int" where
  "capacity_sum rs = sum_list (map (\<lambda>nc. sint (snd nc)) rs)"

definition usage_sum :: "(NodeMetrics \<times> int64) list \<Rightarrow> int" where
  "usage_sum rs = sum_list (map (\<lambda>nc. sint (UsageCpu (fst nc))) rs)"

text \<open>
  Loads are plausible when every capacity is positive, every usage is between zero and ten
  thousand times the node's capacity (a million per cent), and both sums fit \<open>int64\<close>.
\<close>

definition plausible :: "(NodeMetrics \<times> int64) list \<Rightarrow> bool" where
  "plausible rs \<longleftrightarrow>
     list_all (\<lambda>nc. 0 < sint (snd nc) \<and> 0 \<le> sint (UsageCpu (fst nc))
                 \<and> sint (UsageCpu (fst nc)) \<le> 10000 * sint (snd nc)) rs
     \<and> fits_int64 (capacity_sum rs) \<and> fits_int64 (usage_sum rs)"

text \<open>The row the second loop writes for a node, with the aggregates of the first loop.\<close>

definition cycle_row :: "tick \<Rightarrow> NodeMetrics list \<Rightarrow> NodeMetrics \<times> int64 \<Rightarrow> MetricsData" where
  "cycle_row t items nc =
     \<lparr>Timestamp = time_now t (Name (fst nc)),
      NodeName = Name (fst nc),
      CpuUsage = percentage (UsageCpu (fst nc)) (snd nc),
      MemoryUsage = UsageMemory (fst nc),
      IsBenchmark = False,
      ClusterCpuUsage = percentage (cluster_used t items) (cluster_total t items),
      ClusterTotalCpu = cluster_total t items\<rparr>"

subsection \<open>Runs of operations\<close>

text \<open>
  The four operations on the store: one collection cycle, and the three handlers. A run
  performs them one after the other; \<open>each_step P\<close> says that \<open>P\<close> relates the state
  before and after every operation of the run.
\<close>

datatype operation =
  Append tick
| QueryAll "int \<Rightarrow> int" query_errors
| MarkBenchmark "int \<Rightarrow> int" "string option"
| Reset reset_errors

fun perform :: "operation \<Rightarrow> MetricsData state \<Rightarrow> response option \<times> MetricsData state" where
  "perform (Append t) s = (None, cycle t s)"
| "perform (QueryAll tie errs) s = (Some (getMetrics tie errs (db s)), s)"
| "perform (MarkBenchmark tie err) s =
     (case startBenchmark tie err (db s) of (r, d') \<Rightarrow> (Some r, s\<lparr>db := d'\<rparr>))"
| "perform (Reset errs) s =
     (case resetDB errs (db s) of (r, d') \<Rightarrow> (Some r, s\<lparr>db := d'\<rparr>))"

fun each_step :: "(operation \<Rightarrow> MetricsData state \<Rightarrow> MetricsData state \<Rightarrow> bool)
    \<Rightarrow> operation list \<Rightarrow> MetricsData state \<Rightarrow> bool" where
  "each_step P [] s = True"
| "each_step P (x # xs) s =
     (P x s (snd (perform x s)) \<and> each_step P xs (snd (perform x s)))"

fun run :: "operation list \<Rightarrow> MetricsData state \<Rightarrow> MetricsData state" where
  "run [] s = s"
| "run (x # xs) s = run xs (snd (perform x s))"

text \<open>
  The rows before an operation are still there after it, as they were and in their
  places, followed by what was appended; or, for a reset only, no row is left.
\<close>

fun appended_or_cleared :: "operation \<Rightarrow> MetricsData state \<Rightarrow> MetricsData state \<Rightarrow> bool" where
  "appended_or_cleared (Reset errs) s s' =
     (metrics (db s') = metrics (db s) \<or> metrics (db s') = [])"
| "appended_or_cleared x s s' =
     (take (length (metrics (db s))) (metrics (db s')) = metrics (db s))"

subsection \<open>Sample data\<close>

text \<open>Two collected rows whose timestamps run against their rowids, and two that tie.\<close>

definition clock_stepped_back :: "MetricsData database" where
  "clock_stepped_back =
     \<lparr>metrics = [(1, sample 20 ''node-a'' False), (2, sample 10 ''node-b'' False)],
      sqlite_sequence = Some 2\<rparr>"

definition same_instant :: "MetricsData database" where
  "same_instant =
     \<lparr>metrics = [(1, sample 5 ''node-a'' False), (2, sample 5 ''node-b'' False)],
      sqlite_sequence = Some 2\<rparr>"

text \<open>
  Two nodes of capacities 1000 and 2000 millicores, each using 500. In \<open>steady_tick\<close>
  every call succeeds. In \<open>flaky_tick\<close> the first \<open>Get\<close> of \<open>node-a\<close> fails and the second
  succeeds. In \<open>late_tick\<close> only \<open>node-a\<close> is listed, again resolved by the second loop
  only. In \<open>unreachable_tick\<close> no \<open>Get\<close> succeeds and in \<open>down_tick\<close> the listing itself
  fails. In \<open>struggling_tick\<close> a third node is listed, every \<open>Get\<close> of \<open>node-a\<close> fails
  and so does the \<open>INSERT\<close> of \<open>node-c\<close>. In \<open>zero_capacity_tick\<close> the capacity of
  \<open>node-a\<close> is reported as 0.
\<close>

definition two_nodes :: "NodeMetrics list" where
  "two_nodes =
     [\<lparr>Name = ''node-a'', UsageCpu = 500, UsageMemory = 4096\<rparr>,
      \<lparr>Name = ''node-b'', UsageCpu = 500, UsageMemory = 8192\<rparr>]"

definition capacities :: "nat \<Rightarrow> string \<Rightarrow> string + int64" where
  "capacities pass name =
     (if name = ''node-a'' then Inr 1000 else if name = ''node-b'' then Inr 2000
      else Inl ''not found'')"

definition flaky_capacities :: "nat \<Rightarrow> string \<Rightarrow> string + int64" where
  "flaky_capacities pass name =
     (if name = ''node-a'' \<and> pass = 1 then Inl ''connection refused'' else capacities pass name)"

definition noon :: "string \<Rightarrow> int" where
  "noon name = 43200"

definition inserts_succeed :: "string \<Rightarrow> string option" where
  "inserts_succeed name = None"


definition steady_tick :: tick where
  "steady_tick = \<lparr>list_nodes = Inr two_nodes, new_clientset = None, get_node = capacities,
     time_now = noon, insert_err = inserts_succeed\<rparr>"

definition flaky_tick :: tick where
  "flaky_tick = \<lparr>list_nodes = Inr two_nodes, new_clientset = None, get_node = flaky_capacities,
     time_now = noon, insert_err = inserts_succeed\<rparr>"

definition one_node :: "NodeMetrics list" where
  "one_node = [\<lparr>Name = ''node-a'', UsageCpu = 500, UsageMemory = 4096\<rparr>]"

definition late_tick :: tick where
  "late_tick = \<lparr>list_nodes = Inr one_node, new_clientset = None,
     get_node = flaky_capacities, time_now = noon, insert_err = inserts_succeed\<rparr>"

definition no_capacities :: "nat \<Rightarrow> string \<Rightarrow> string + int64" where
  "no_capacities pass name = Inl ''connection refused''"

definition unreachable_tick :: tick where
  "unreachable_tick = \<lparr>list_nodes = Inr two_nodes, new_clientset = None,
     get_node = no_capacities, time_now = noon, insert_err = inserts_succeed\<rparr>"







definition no_reset_errors :: reset_errors where
  "no_reset_errors = \<lparr>begin_err = None, delete_err = None, sequence_err = None, commit_err = None\<rparr>"

definition simple_tick :: tick_simple where
  "simple_tick = \<lparr>list_nodes_simple = Inr two_nodes, time_now_simple = noon,
     insert_err_simple = inserts_succeed\<rparr>"

definition fresh :: "'r state" where
  "fresh = \<lparr>db = initDB, logs = []\<rparr>"

definition cluster_columns :: "MetricsData database \<Rightarrow> (float64 \<times> int64) list" where
  "cluster_columns d = map (\<lambda>ir. (ClusterCpuUsage (snd ir), ClusterTotalCpu (snd ir))) (metrics d)"

definition cpu_column :: "MetricsData database \<Rightarrow> float64 list" where
  "cpu_column d = map (\<lambda>ir. CpuUsage (snd ir)) (metrics d)"

section \<open>Properties\<close>

subsection \<open>The body of the loop\<close>

text \<open>
  No branch of the body is fatal, so \<open>cycle\<close> is the body read as a function from state
  to state, and a run of ticks is the fold of \<open>cycle\<close>. Startup is the only place where
  the process can end.
\<close>

lemma loop_body_continues: "loop_body t s = Continue (cycle t s)"
  by (simp add: cycle_def loop_body_def split: sum.splits option.splits prod.splits)

lemma cycle_unfold [code]:
  "cycle t s =
     (case list_nodes t of
        Inl e \<Rightarrow> log_Printf ''Error collecting metrics: '' e s
      | Inr items \<Rightarrow>
          (case new_clientset t of
             Some e \<Rightarrow> log_Printf ''Error creating clientset: '' e s
           | None \<Rightarrow>
               (case gather_totals t items (0, 0, s) of
                  (clusterTotalCPU, clusterUsedCPU, s1) \<Rightarrow>
                    store_rows t (percentage clusterUsedCPU clusterTotalCPU)
                      clusterTotalCPU items s1)))"
  by (simp add: cycle_def loop_body_def split: sum.splits option.splits prod.splits)


lemma main_startup_continues_iff:
  "(\<exists>s. main_startup st file = Continue s) \<longleftrightarrow>
     sql_Open st = None \<and> create_table st = None \<and> InClusterConfig st = None
     \<and> NewForConfig st = None"
  by (simp add: main_startup_def log_Fatal_def split: option.splits)

subsection \<open>Reset\<close>

text \<open>
  C1. When every step succeeds, \<open>resetDB\<close> answers 200, leaves no row and puts the
  identifier sequence back to its initial state (that of \<open>initDB\<close>, so that the next
  rowid is 1). When any step fails (begin, delete, sequence reset or commit), the table
  and the sequence are what they were, and the answer is a 500 with an error payload.
\<close>

theorem resetDB_all_or_nothing:
  "(no_reset_error errs \<longrightarrow>
      resetDB errs d = (c_Status StatusOK, initDB) \<and> next_rowid (snd (resetDB errs d)) = 1)
   \<and> (\<not> no_reset_error errs \<longrightarrow>
      snd (resetDB errs (d :: 'r database)) = d
      \<and> status (fst (resetDB errs d)) = StatusInternalServerError
      \<and> (\<exists>msg. body (fst (resetDB errs d)) = Some (JError msg)))"
  by (cases d) (auto simp: resetDB_def no_reset_error_def exec_def sql_delete_metrics_def
      sql_delete_sequence_def initDB_def next_rowid_def max_rowid_def c_JSON_def c_Status_def
      split: option.splits)

theorem resetDB_all_or_nothing_witness:
  "resetDB \<lparr>begin_err = None, delete_err = None, sequence_err = None, commit_err = None\<rparr>
     \<lparr>metrics = [(4, ''a''), (5, ''b'')], sqlite_sequence = Some 5\<rparr>
     = (c_Status StatusOK, \<lparr>metrics = [], sqlite_sequence = None\<rparr>)
   \<and> snd (resetDB
       \<lparr>begin_err = None, delete_err = None, sequence_err = None, commit_err = Some ''disk I/O error''\<rparr>
       \<lparr>metrics = [(4, ''a''), (5, ''b'')], sqlite_sequence = Some 5\<rparr>)
     = \<lparr>metrics = [(4, ''a''), (5, ''b'')], sqlite_sequence = Some 5\<rparr>"
  using resetDB_all_or_nothing
    [of "\<lparr>begin_err = None, delete_err = None, sequence_err = None, commit_err = None\<rparr>"
      "\<lparr>metrics = [(4, ''a''), (5, ''b'')], sqlite_sequence = Some 5\<rparr>"]
    resetDB_all_or_nothing
    [of "\<lparr>begin_err = None, delete_err = None, sequence_err = None,
          commit_err = Some ''disk I/O error''\<rparr>"
      "\<lparr>metrics = [(4, ''a''), (5, ''b'')], sqlite_sequence = Some 5\<rparr>"]
  by (simp add: no_reset_error_def initDB_def)

subsection \<open>The table engine\<close>

lemma max_rowid_ge: "ir \<in> set rs \<Longrightarrow> fst ir \<le> max_rowid rs"
  unfolding max_rowid_def by (induction rs) auto

lemma next_rowid_fresh: "ir \<in> set (metrics d) \<Longrightarrow> fst ir < next_rowid d"
  using max_rowid_ge [of ir "metrics d"] by (simp add: next_rowid_def)

lemma primary_key_sql_insert:
  assumes "primary_key d"
  shows "primary_key (sql_insert r d)"
proof -
  have "next_rowid d \<notin> fst ` set (metrics d)"
    using next_rowid_fresh [of _ d] by force
  with assms show ?thesis by (simp add: primary_key_def sql_insert_def)
qed

lemma insert_all_Nil: "insert_all [] d = d"
  by (simp add: insert_all_def)

lemma insert_all_Cons: "insert_all (r # rs) d = insert_all rs (sql_insert r d)"
  by (simp add: insert_all_def)

lemma insert_all_single:
  "insert_all [r] d = \<lparr>metrics = metrics d @ [(next_rowid d, r)], sqlite_sequence = Some (next_rowid d)\<rparr>"
  by (simp add: insert_all_def sql_insert_def)

lemma metrics_sql_insert_rows: "metrics (sql_insert_rows rs d) = metrics (insert_all rs d)"
  by (simp add: sql_insert_rows_def)

lemma sql_insert_rows_Nil:
  "sql_insert_rows [] d = d\<lparr>sqlite_sequence := Some (sequence_value d)\<rparr>"
  by (simp add: sql_insert_rows_def insert_all_Nil)

lemma sql_insert_rows_single:
  "sql_insert_rows [r] d =
     \<lparr>metrics = metrics d @ [(next_rowid d, r)], sqlite_sequence = Some (next_rowid d)\<rparr>"
  by (simp add: sql_insert_rows_def insert_all_single sequence_value_def)

lemma next_rowid_sequence_written:
  "next_rowid (d\<lparr>sqlite_sequence := Some (sequence_value d)\<rparr>) = next_rowid d"
  by (simp add: next_rowid_def sequence_value_def split: option.splits)

lemma insert_all_appends:
  "\<exists>new. metrics (insert_all rs d) = metrics d @ new \<and> map snd new = rs"
proof (induction rs arbitrary: d)
  case Nil
  show ?case by (simp add: insert_all_Nil)
next
  case (Cons r rs)
  from Cons [of "sql_insert r d"] obtain new where
    "metrics (insert_all rs (sql_insert r d)) = metrics (sql_insert r d) @ new" "map snd new = rs"
    by blast
  then show ?case
    by (intro exI [of _ "(next_rowid d, r) # new"]) (simp add: insert_all_Cons sql_insert_def)
qed

lemma filter_rowid_unique:
  "distinct (map fst rs) \<Longrightarrow> (i, r) \<in> set rs \<Longrightarrow> filter (\<lambda>ir. fst ir = i) rs = [(i, r)]"
proof (induction rs)
  case Nil
  then show ?case by simp
next
  case (Cons x rs)
  show ?case
  proof (cases "x = (i, r)")
    case True
    with Cons.prems have "\<forall>y\<in>set rs. fst y \<noteq> i" by force
    then have "filter (\<lambda>ir. fst ir = i) rs = []" by (simp add: filter_empty_conv)
    with True show ?thesis by simp
  next
    case False
    with Cons.prems have in_rs: "(i, r) \<in> set rs" by simp
    then have "i \<in> fst ` set rs" by force
    with Cons.prems have "fst x \<noteq> i" by auto
    with Cons in_rs show ?thesis by simp
  qed
qed

lemma order_by_desc_set: "set (order_by_desc col tie rs) = set rs"
  by (simp add: order_by_desc_def)


lemma order_by_desc_sorted:
  "sorted_wrt (\<lambda>a b. col (snd b) \<le> col (snd a)) (order_by_desc col tie rs)"
proof -
  have "sorted (map (\<lambda>ir. (- col (snd ir), tie (fst ir))) (order_by_desc col tie rs))"
    unfolding order_by_desc_def by (rule sorted_sort_key)
  then have "sorted_wrt (\<lambda>a b. (- col (snd a), tie (fst a)) \<le> (- col (snd b), tie (fst b)))
      (order_by_desc col tie rs)"
    by (simp add: sorted_map)
  then show ?thesis
    by (rule sorted_wrt_mono_rel [rotated]) (auto simp: less_eq_prod_def)
qed

lemma order_by_desc_hd:
  assumes "rs \<noteq> []"
  shows "hd (order_by_desc col tie rs) \<in> set rs
    \<and> (\<forall>ir\<in>set rs. col (snd ir) \<le> col (snd (hd (order_by_desc col tie rs))))"
proof -
  let ?xs = "order_by_desc col tie rs"
  from assms have ne: "?xs \<noteq> []"
    by (metis order_by_desc_set set_empty)
  then obtain x xs where xs: "?xs = x # xs" by (cases ?xs) auto
  have "sorted_wrt (\<lambda>a b. col (snd b) \<le> col (snd a)) (x # xs)"
    using order_by_desc_sorted [of col tie rs] xs by simp
  then have "\<forall>y\<in>set xs. col (snd y) \<le> col (snd x)" by simp
  moreover have "set rs = insert x (set xs)"
    using order_by_desc_set [of col tie rs] xs by simp
  ultimately show ?thesis using xs by auto
qed

lemma benchmark_rows_selected:
  assumes pk: "distinct (map fst rs)" and ex: "\<exists>ir\<in>set rs. \<not> IsBenchmark (snd ir)"
  shows "\<exists>i r. (i, r) \<in> set rs \<and> \<not> IsBenchmark r
     \<and> (\<forall>ir\<in>set rs. \<not> IsBenchmark (snd ir) \<longrightarrow> Timestamp (snd ir) \<le> Timestamp r)
     \<and> benchmark_rows tie rs = [r\<lparr>IsBenchmark := True\<rparr>]"
proof -
  let ?plain = "filter (\<lambda>ir. \<not> IsBenchmark (snd ir)) rs"
  let ?h = "hd (order_by_desc Timestamp tie ?plain)"
  from ex have ne: "?plain \<noteq> []" by (simp add: filter_empty_conv)
  from order_by_desc_hd [OF ne, of Timestamp tie]
  have h_in: "?h \<in> set ?plain"
    and h_max: "\<forall>ir\<in>set ?plain. Timestamp (snd ir) \<le> Timestamp (snd ?h)" by blast+
  have "order_by_desc Timestamp tie ?plain \<noteq> []"
    using ne by (metis order_by_desc_set set_empty)
  then have sel: "latest_plain_id tie rs = [fst ?h]"
    by (cases "order_by_desc Timestamp tie ?plain") (simp_all add: latest_plain_id_def)
  from h_in have h_rs: "(fst ?h, snd ?h) \<in> set rs" and h_plain: "\<not> IsBenchmark (snd ?h)" by auto
  have "benchmark_rows tie rs = [(snd ?h)\<lparr>IsBenchmark := True\<rparr>]"
    unfolding benchmark_rows_def sel using filter_rowid_unique [OF pk h_rs] by simp
  with h_rs h_plain h_max show ?thesis by (intro exI [of _ "fst ?h"] exI [of _ "snd ?h"]) auto
qed

lemma benchmark_rows_none:
  assumes "\<forall>ir\<in>set rs. IsBenchmark (snd ir)"
  shows "benchmark_rows tie rs = []"
proof -
  from assms have "filter (\<lambda>ir. \<not> IsBenchmark (snd ir)) rs = []"
    by (simp add: filter_empty_conv)
  then show ?thesis by (simp add: benchmark_rows_def latest_plain_id_def order_by_desc_def)
qed




lemma scan_rows_null:
  assumes "\<exists>m\<in>set ms. CpuUsage m = NaN \<or> ClusterCpuUsage m = NaN"
  shows "\<exists>e. scan_rows serr k ms sl = Inl e"
  using assms
proof (induction ms arbitrary: k sl)
  case Nil
  then show ?case by simp
next
  case (Cons m ms)
  show ?case
  proof (cases "serr k")
    case (Some e)
    then show ?thesis by simp
  next
    case None
    show ?thesis
    proof (cases "rows_Scan m")
      case (Inl e)
      with None show ?thesis by simp
    next
      case (Inr m')
      then have "CpuUsage m \<noteq> NaN \<and> ClusterCpuUsage m \<noteq> NaN"
        by (auto simp: rows_Scan_def split: if_splits)
      with Cons.prems have "\<exists>m\<in>set ms. CpuUsage m = NaN \<or> ClusterCpuUsage m = NaN" by auto
      from Cons.IH [OF this] None Inr show ?thesis by simp
    qed
  qed
qed

subsection \<open>Benchmark snapshot\<close>

text \<open>
  C2. On a table that satisfies its primary key, with no storage error: if some row has
  \<open>is_benchmark = false\<close>, \<open>startBenchmark\<close> answers 201 and appends exactly one row,
  under the next rowid, equal to one of those rows in every column but \<open>is_benchmark\<close>,
  which is true; if no row has \<open>is_benchmark = false\<close>, it answers 201 and inserts
  nothing: the rows and the next rowid are what they were, and \<open>sqlite_sequence\<close> keeps
  its entry, or gets the entry 0 where it had none.
\<close>

theorem startBenchmark_copies_one_row:
  assumes "primary_key d"
  shows "((\<exists>ir\<in>set (metrics d). \<not> IsBenchmark (snd ir)) \<longrightarrow>
            (\<exists>i r. (i, r) \<in> set (metrics d) \<and> \<not> IsBenchmark r
               \<and> startBenchmark tie None d =
                   (c_Status StatusCreated,
                    \<lparr>metrics = metrics d @ [(next_rowid d, r\<lparr>IsBenchmark := True\<rparr>)],
                     sqlite_sequence = Some (next_rowid d)\<rparr>)))
       \<and> ((\<forall>ir\<in>set (metrics d). IsBenchmark (snd ir)) \<longrightarrow>
            startBenchmark tie None d =
              (c_Status StatusCreated, d\<lparr>sqlite_sequence := Some (sequence_value d)\<rparr>)
          \<and> metrics (snd (startBenchmark tie None d)) = metrics d
          \<and> next_rowid (snd (startBenchmark tie None d)) = next_rowid d)"
proof (intro conjI impI)
  assume "\<exists>ir\<in>set (metrics d). \<not> IsBenchmark (snd ir)"
  with assms benchmark_rows_selected [of "metrics d" tie]
  obtain i r where "(i, r) \<in> set (metrics d)" "\<not> IsBenchmark r"
    "benchmark_rows tie (metrics d) = [r\<lparr>IsBenchmark := True\<rparr>]"
    unfolding primary_key_def by blast
  then show "\<exists>i r. (i, r) \<in> set (metrics d) \<and> \<not> IsBenchmark r
               \<and> startBenchmark tie None d =
                   (c_Status StatusCreated,
                    \<lparr>metrics = metrics d @ [(next_rowid d, r\<lparr>IsBenchmark := True\<rparr>)],
                     sqlite_sequence = Some (next_rowid d)\<rparr>)"
    by (intro exI [of _ i] exI [of _ r])
      (simp add: startBenchmark_def exec_def insert_select_def sql_insert_rows_single)
next
  assume "\<forall>ir\<in>set (metrics d). IsBenchmark (snd ir)"
  then have run: "startBenchmark tie None d =
      (c_Status StatusCreated, d\<lparr>sqlite_sequence := Some (sequence_value d)\<rparr>)"
    by (simp add: startBenchmark_def exec_def insert_select_def benchmark_rows_none
        sql_insert_rows_Nil)
  then show "startBenchmark tie None d =
      (c_Status StatusCreated, d\<lparr>sqlite_sequence := Some (sequence_value d)\<rparr>)" .
  from run show "metrics (snd (startBenchmark tie None d)) = metrics d" by simp
  from run show "next_rowid (snd (startBenchmark tie None d)) = next_rowid d"
    by (simp add: next_rowid_sequence_written)
qed

theorem startBenchmark_copies_one_row_witness:
  "primary_key same_instant \<and> (\<exists>ir\<in>set (metrics same_instant). \<not> IsBenchmark (snd ir))
   \<and> startBenchmark scan_order None same_instant =
       (c_Status StatusCreated,
        \<lparr>metrics = [(1, sample 5 ''node-a'' False), (2, sample 5 ''node-b'' False),
                    (3, sample 5 ''node-a'' True)],
         sqlite_sequence = Some 3\<rparr>)
   \<and> primary_key (initDB :: MetricsData database)
   \<and> metrics (initDB :: MetricsData database) = []
   \<and> startBenchmark scan_order None initDB
       = (c_Status StatusCreated, \<lparr>metrics = [], sqlite_sequence = Some 0\<rparr>)
   \<and> next_rowid (snd (startBenchmark scan_order None initDB)) = 1"
proof -
  have pk: "primary_key same_instant" by code_simp
  have pk0: "primary_key (initDB :: MetricsData database)" by code_simp
  have ex: "\<exists>ir\<in>set (metrics same_instant). \<not> IsBenchmark (snd ir)" by code_simp
  have all0: "\<forall>ir\<in>set (metrics (initDB :: MetricsData database)). IsBenchmark (snd ir)"
    by code_simp
  have run: "startBenchmark scan_order None same_instant =
       (c_Status StatusCreated,
        \<lparr>metrics = [(1, sample 5 ''node-a'' False), (2, sample 5 ''node-b'' False),
                    (3, sample 5 ''node-a'' True)],
         sqlite_sequence = Some 3\<rparr>)" by code_simp
  have empty: "metrics (initDB :: MetricsData database) = []" by code_simp
  have run0: "startBenchmark scan_order None initDB
       = (c_Status StatusCreated, \<lparr>metrics = [], sqlite_sequence = Some 0\<rparr>)
     \<and> next_rowid (initDB :: MetricsData database) = 1"
    by code_simp
  from startBenchmark_copies_one_row [OF pk0, of scan_order] all0
  have "next_rowid (snd (startBenchmark scan_order None initDB))
      = next_rowid (initDB :: MetricsData database)" by blast
  with run0 have next0: "next_rowid (snd (startBenchmark scan_order None initDB)) = 1" by simp
  from run0 have start0: "startBenchmark scan_order None initDB
       = (c_Status StatusCreated, \<lparr>metrics = [], sqlite_sequence = Some 0\<rparr>)"
    by (rule conjunct1)
  from pk ex run pk0 empty start0 next0 show ?thesis
    by (intro conjI)
qed

text \<open>
  C3, as the code has it. The row copied is one with \<open>is_benchmark = false\<close> whose
  timestamp is greatest among those rows: the selection is by timestamp, whatever the
  engine's order among equal timestamps (\<open>tie\<close>) is.
\<close>

theorem startBenchmark_selects_by_timestamp:
  assumes "primary_key d" and "\<exists>ir\<in>set (metrics d). \<not> IsBenchmark (snd ir)"
  shows "\<exists>i r. (i, r) \<in> set (metrics d) \<and> \<not> IsBenchmark r
     \<and> (\<forall>ir\<in>set (metrics d). \<not> IsBenchmark (snd ir) \<longrightarrow> Timestamp (snd ir) \<le> Timestamp r)
     \<and> map snd (metrics (snd (startBenchmark tie None d)))
         = map snd (metrics d) @ [r\<lparr>IsBenchmark := True\<rparr>]"
proof -
  from assms benchmark_rows_selected [of "metrics d" tie]
  obtain i r where r: "(i, r) \<in> set (metrics d)" "\<not> IsBenchmark r"
    "\<forall>ir\<in>set (metrics d). \<not> IsBenchmark (snd ir) \<longrightarrow> Timestamp (snd ir) \<le> Timestamp r"
    "benchmark_rows tie (metrics d) = [r\<lparr>IsBenchmark := True\<rparr>]"
    unfolding primary_key_def by blast
  then have "map snd (metrics (snd (startBenchmark tie None d)))
      = map snd (metrics d) @ [r\<lparr>IsBenchmark := True\<rparr>]"
    by (simp add: startBenchmark_def exec_def insert_select_def sql_insert_rows_single)
  with r show ?thesis by blast
qed

theorem startBenchmark_selects_by_timestamp_witness:
  "primary_key clock_stepped_back
   \<and> (\<exists>ir\<in>set (metrics clock_stepped_back). \<not> IsBenchmark (snd ir))
   \<and> (\<exists>i r. (i, r) \<in> set (metrics clock_stepped_back) \<and> \<not> IsBenchmark r
     \<and> (\<forall>ir\<in>set (metrics clock_stepped_back).
           \<not> IsBenchmark (snd ir) \<longrightarrow> Timestamp (snd ir) \<le> Timestamp r)
     \<and> map snd (metrics (snd (startBenchmark scan_order None clock_stepped_back)))
         = map snd (metrics clock_stepped_back) @ [r\<lparr>IsBenchmark := True\<rparr>])
   \<and> map snd (metrics (snd (startBenchmark scan_order None clock_stepped_back)))
       = [sample 20 ''node-a'' False, sample 10 ''node-b'' False, sample 20 ''node-a'' True]"
proof -
  have pk: "primary_key clock_stepped_back" by code_simp
  have ex: "\<exists>ir\<in>set (metrics clock_stepped_back). \<not> IsBenchmark (snd ir)" by code_simp
  have run: "map snd (metrics (snd (startBenchmark scan_order None clock_stepped_back)))
       = [sample 20 ''node-a'' False, sample 10 ''node-b'' False, sample 20 ''node-a'' True]"
    by code_simp
  from startBenchmark_selects_by_timestamp [OF pk ex, of scan_order] pk ex run
  show ?thesis by blast
qed

text \<open>
  C3 as stated fails. With two collected rows whose timestamps run against their rowids,
  the copy is of rowid 1 (the latest timestamp), where selection by identifier copies
  rowid 2. With two collected rows of one timestamp, which one is copied depends on the
  engine's order among ties.
\<close>

theorem startBenchmark_by_identifier_counterexample:
  "node_names (snd (startBenchmark scan_order None clock_stepped_back))
     = [''node-a'', ''node-b'', ''node-a'']
   \<and> node_names (spec_markBenchmark clock_stepped_back) = [''node-a'', ''node-b'', ''node-b'']
   \<and> snd (startBenchmark scan_order None clock_stepped_back) \<noteq> spec_markBenchmark clock_stepped_back
   \<and> node_names (snd (startBenchmark scan_order None same_instant))
     = [''node-a'', ''node-b'', ''node-a'']
   \<and> node_names (snd (startBenchmark reverse_scan_order None same_instant))
     = [''node-a'', ''node-b'', ''node-b'']"
  by code_simp

subsection \<open>Reading the history\<close>




text \<open>
  C10. On an empty table, when the query itself succeeds, \<open>getMetrics\<close> answers 200 with
  the body \<open>null\<close>, the encoding of the nil slice, and not with an empty array.
\<close>

theorem getMetrics_empty_is_null:
  assumes "metrics d = []" and "query_err errs = None"
  shows "getMetrics tie errs d = \<lparr>status = 200, body = Some JNull\<rparr>
    \<and> body (getMetrics tie errs d) \<noteq> Some (JArray [])"
  using assms
  by (simp add: getMetrics_def order_by_desc_def c_JSON_metrics_def marshal_def go_elems_def
      encoding_def StatusOK_def)

theorem getMetrics_empty_is_null_witness:
  "metrics (initDB :: MetricsData database) = [] \<and> query_err no_errors = None
   \<and> getMetrics scan_order no_errors initDB = \<lparr>status = 200, body = Some JNull\<rparr>"
  using getMetrics_empty_is_null [of initDB no_errors scan_order]
  by (simp add: initDB_def no_errors_def)

subsection \<open>Rounding\<close>

text \<open>
  Rounding to 53 significant bits moves a value by at most the fraction \<open>2 powi -53\<close> of
  itself, so the percentage, which rounds four times (two conversions, the division and
  the multiplication), is within \<open>1e-9\<close> of the exact one as long as that is at most a
  million in magnitude.
\<close>

lemma round_half_even_error: "\<bar>of_int (round_half_even x) - x\<bar> \<le> 1 / 2"
proof -
  have f: "of_int \<lfloor>x\<rfloor> \<le> x" "x < of_int \<lfloor>x\<rfloor> + 1" by linarith+
  show ?thesis
    unfolding round_half_even_def Let_def using f by (auto simp: abs_le_iff)
qed

lemma binade_lower:
  assumes "q \<noteq> 0"
  shows "2 powi (binade q) \<le> \<bar>q\<bar>"
proof -
  obtain n d where nd: "quotient_of \<bar>q\<bar> = (n, d)" by (cases "quotient_of \<bar>q\<bar>")
  then have d: "0 < d" and q: "\<bar>q\<bar> = of_int n / of_int d"
    by (simp_all add: quotient_of_denom_pos quotient_of_div)
  from assms have "0 < \<bar>q\<bar>" by simp
  with q d have n: "0 < n" by (simp add: zero_less_divide_iff)
  let ?e = "bitlen n - bitlen d"
  show ?thesis
  proof (cases "2 powi ?e \<le> \<bar>q\<bar>")
    case True
    then show ?thesis by (simp add: binade_def nd)
  next
    case False
    then have b: "binade q = ?e - 1" by (simp add: binade_def nd)
    have kn: "1 \<le> bitlen n" and kd: "1 \<le> bitlen d"
      using n d by (simp_all add: bitlen_alt_def)
    have n_lo: "(2::rat) ^ nat (bitlen n - 1) \<le> of_int n"
    proof -
      have "2 ^ nat (bitlen n - 1) \<le> n" using bitlen_bounds [OF n] by simp
      then have "rat_of_int (2 ^ nat (bitlen n - 1)) \<le> of_int n" by (simp only: of_int_le_iff)
      then show ?thesis by simp
    qed
    have d_hi: "of_int d \<le> (2::rat) ^ nat (bitlen d)"
    proof -
      have "d \<le> 2 ^ nat (bitlen d)" using bitlen_bounds [OF d] by simp
      then have "rat_of_int d \<le> of_int (2 ^ nat (bitlen d))" by (simp only: of_int_le_iff)
      then show ?thesis by simp
    qed
    have "(2::rat) powi (?e - 1) = 2 ^ nat (bitlen n - 1) / 2 ^ nat (bitlen d)"
    proof -
      define a b where "a = nat (bitlen n - 1)" and "b = nat (bitlen d)"
      have idx: "?e - 1 = int a - int b"
        using kn kd by (simp add: a_def b_def)
      have "(2::rat) powi (int a - int b) = 2 powi int a / 2 powi int b"
        by (simp add: power_int_diff)
      also have "\<dots> = 2 ^ a / 2 ^ b"
        by (simp only: power_int_of_nat)
      finally show ?thesis
        unfolding idx a_def b_def .
    qed
    also have "\<dots> \<le> of_int n / of_int d"
      using n_lo d_hi d n by (intro frac_le) simp_all
    finally show ?thesis using b q by simp
  qed
qed

lemma binade_upper:
  assumes "q \<noteq> 0"
  shows "\<bar>q\<bar> < 2 powi (binade q + 1)"
proof -
  obtain n d where nd: "quotient_of \<bar>q\<bar> = (n, d)" by (cases "quotient_of \<bar>q\<bar>")
  then have d: "0 < d" and q: "\<bar>q\<bar> = of_int n / of_int d"
    by (simp_all add: quotient_of_denom_pos quotient_of_div)
  from assms have "0 < \<bar>q\<bar>" by simp
  with q d have n: "0 < n" by (simp add: zero_less_divide_iff)
  let ?e = "bitlen n - bitlen d"
  show ?thesis
  proof (cases "2 powi ?e \<le> \<bar>q\<bar>")
    case False
    then have "binade q = ?e - 1" by (simp add: binade_def nd)
    with False show ?thesis by simp
  next
    case True
    then have b: "binade q = ?e" by (simp add: binade_def nd)
    have kn: "1 \<le> bitlen n" and kd: "1 \<le> bitlen d"
      using n d by (simp_all add: bitlen_alt_def)
    have n_hi: "of_int n < (2::rat) ^ nat (bitlen n)"
    proof -
      have "n < 2 ^ nat (bitlen n)" using bitlen_bounds [OF n] by simp
      then have "rat_of_int n < of_int (2 ^ nat (bitlen n))" by (simp only: of_int_less_iff)
      then show ?thesis by simp
    qed
    have d_lo: "(2::rat) ^ nat (bitlen d - 1) \<le> of_int d"
    proof -
      have "2 ^ nat (bitlen d - 1) \<le> d" using bitlen_bounds [OF d] by simp
      then have "rat_of_int (2 ^ nat (bitlen d - 1)) \<le> of_int d" by (simp only: of_int_le_iff)
      then show ?thesis by simp
    qed
    have "of_int n / of_int d < (2::rat) ^ nat (bitlen n) / 2 ^ nat (bitlen d - 1)"
      using n_hi d_lo d n by (intro frac_less) simp_all
    also have "\<dots> = 2 powi (?e + 1)"
    proof -
      define a b where "a = nat (bitlen n)" and "b = nat (bitlen d - 1)"
      have idx: "?e + 1 = int a - int b"
        using kn kd by (simp add: a_def b_def)
      have "(2::rat) powi (int a - int b) = 2 powi int a / 2 powi int b"
        by (simp add: power_int_diff)
      also have "\<dots> = 2 ^ a / 2 ^ b"
        by (simp only: power_int_of_nat)
      finally show ?thesis
        unfolding idx a_def b_def by simp
    qed
    finally show ?thesis using b q by simp
  qed
qed

lemma fl_error: "\<bar>fl q - q\<bar> \<le> \<bar>q\<bar> / 2 ^ 53"
proof (cases "q = 0")
  case True
  then show ?thesis by (simp add: fl_def)
next
  case False
  define s :: rat where "s = 2 powi (binade q - 52)"
  have s: "0 < s" by (simp add: s_def)
  have "fl q - q = s * (of_int (round_half_even (q / s)) - q / s)"
    using False s by (simp add: fl_def s_def [symmetric] Let_def algebra_simps)
  then have "\<bar>fl q - q\<bar> = s * \<bar>of_int (round_half_even (q / s)) - q / s\<bar>"
    using s by (simp add: abs_mult)
  also have "\<dots> \<le> s * (1 / 2)"
    using s round_half_even_error [of "q / s"] by (intro mult_left_mono) simp_all
  also have "\<dots> \<le> \<bar>q\<bar> / 2 ^ 53"
  proof -
    have "s * 2 ^ 52 = 2 powi (binade q)"
    proof -
      have "(2::rat) powi (binade q) = 2 powi ((binade q - 52) + 52)" by simp
      also have "\<dots> = 2 powi (binade q - 52) * 2 powi 52"
        by (rule power_int_add) simp
      finally show ?thesis by (simp add: s_def)
    qed
    with binade_lower [OF False] have "s * 2 ^ 52 \<le> \<bar>q\<bar>" by simp
    then show ?thesis by (simp add: field_simps)
  qed
  finally show ?thesis .
qed

lemma fl_rel:
  obtains dl where "fl q = q * (1 + dl)" and "\<bar>dl\<bar> \<le> 1 / 2 ^ 53"
proof (cases "q = 0")
  case True
  then have "fl q = q * (1 + 0)" by (simp add: fl_def)
  then show ?thesis using that [of 0] by simp
next
  case False
  define dl where "dl = (fl q - q) / q"
  have eq: "fl q = q * (1 + dl)" using False by (simp add: dl_def field_simps)
  have "\<bar>dl\<bar> = \<bar>fl q - q\<bar> / \<bar>q\<bar>" by (simp add: dl_def)
  also have "\<dots> \<le> (\<bar>q\<bar> / 2 ^ 53) / \<bar>q\<bar>"
    using fl_error [of q] False by (intro divide_right_mono) simp_all
  also have "\<dots> = 1 / 2 ^ 53" using False by simp
  finally show ?thesis using that [OF eq] by simp
qed

lemma four_roundings:
  fixes d1 d2 d3 d4 :: rat
  assumes "\<bar>d1\<bar> \<le> 1 / 2 ^ 53" "\<bar>d2\<bar> \<le> 1 / 2 ^ 53" "\<bar>d3\<bar> \<le> 1 / 2 ^ 53" "\<bar>d4\<bar> \<le> 1 / 2 ^ 53"
  shows "\<bar>(1 + d1) * (1 + d3) * (1 + d4) / (1 + d2) - 1\<bar> \<le> 1 / 10 ^ 15"
proof -
  define u :: rat where "u = 1 / 2 ^ 53"
  have u: "0 < u" "u < 1" by (simp_all add: u_def)
  from assms have b: "1 - u \<le> 1 + d1" "1 + d1 \<le> 1 + u" "1 - u \<le> 1 + d2" "1 + d2 \<le> 1 + u"
    "1 - u \<le> 1 + d3" "1 + d3 \<le> 1 + u" "1 - u \<le> 1 + d4" "1 + d4 \<le> 1 + u"
    by (simp_all add: u_def abs_le_iff)
  have pos: "0 < 1 + d1" "0 < 1 + d2" "0 < 1 + d3" "0 < 1 + d4"
    using b u by linarith+
  let ?A = "(1 + d1) * (1 + d3) * (1 + d4)"
  have A_hi: "?A \<le> (1 + u) * (1 + u) * (1 + u)"
    using b pos u by (intro mult_mono) simp_all
  have A_lo: "(1 - u) * (1 - u) * (1 - u) \<le> ?A"
    using b pos u by (intro mult_mono) simp_all
  have A_pos: "0 < ?A" using pos by simp
  have hi: "?A / (1 + d2) \<le> (1 + u) * (1 + u) * (1 + u) / (1 - u)"
    using A_hi b u A_pos by (intro frac_le) simp_all
  have lo: "(1 - u) * (1 - u) * (1 - u) / (1 + u) \<le> ?A / (1 + d2)"
    using A_lo b u pos by (intro frac_le) simp_all
  define e :: rat where "e = 1 / 10 ^ 15"
  have n_hi: "(1 + u) * (1 + u) * (1 + u) / (1 - u) \<le> 1 + e"
    by (simp add: u_def e_def)
  have n_lo: "1 - e \<le> (1 - u) * (1 - u) * (1 - u) / (1 + u)"
    by (simp add: u_def e_def)
  have "?A / (1 + d2) \<le> 1 + e" using hi n_hi by (rule order_trans)
  moreover have "1 - e \<le> ?A / (1 + d2)" using n_lo lo by (rule order_trans)
  ultimately have "\<bar>?A / (1 + d2) - 1\<bar> \<le> e" by (simp add: abs_le_iff)
  then show ?thesis unfolding e_def .
qed

lemma percentage_close:
  assumes c: "sint c \<noteq> 0"
    and bound: "\<bar>100 * rat_of_int (sint u) / rat_of_int (sint c)\<bar> \<le> 10 ^ 6"
  shows "within_tolerance (percentage u c) (100 * rat_of_int (sint u) / rat_of_int (sint c))"
proof -
  define a b where "a = rat_of_int (sint u)" and "b = rat_of_int (sint c)"
  define X where "X = 100 * a / b"
  have b: "b \<noteq> 0" using c by (simp add: b_def del: of_int_sint)
  obtain d1 where d1: "fl a = a * (1 + d1)" "\<bar>d1\<bar> \<le> 1 / 2 ^ 53" by (rule fl_rel)
  obtain d2 where d2: "fl b = b * (1 + d2)" "\<bar>d2\<bar> \<le> 1 / 2 ^ 53" by (rule fl_rel)
  have "\<bar>d2\<bar> < 1" using d2(2) by (rule order_le_less_trans) simp
  then have d2_pos: "1 + d2 \<noteq> 0" by (simp add: abs_less_iff)
  with b d2 have flb: "fl b \<noteq> 0" by simp
  define q where "q = fl (fl a / fl b)"
  obtain d3 where d3: "q = fl a / fl b * (1 + d3)" "\<bar>d3\<bar> \<le> 1 / 2 ^ 53"
    unfolding q_def by (rule fl_rel)
  define v where "v = fl (q * 100)"
  obtain d4 where d4: "v = q * 100 * (1 + d4)" "\<bar>d4\<bar> \<le> 1 / 2 ^ 53"
    unfolding v_def by (rule fl_rel)
  have pct: "percentage u c = Finite v"
    using flb by (simp add: percentage_def float64_of_int64_def a_def b_def q_def v_def)
  let ?P = "(1 + d1) * (1 + d3) * (1 + d4) / (1 + d2)"
  have "v = X * ?P"
    using b d2_pos by (simp add: d4 d3 d1 d2 X_def)
  then have "v - X = X * (?P - 1)" by (simp add: algebra_simps)
  then have "\<bar>v - X\<bar> = \<bar>X\<bar> * \<bar>?P - 1\<bar>" by (simp add: abs_mult)
  also have "\<dots> \<le> 10 ^ 6 * (1 / 10 ^ 15)"
    using bound four_roundings [OF d1(2) d2(2) d3(2) d4(2)]
    by (intro mult_mono) (simp_all add: X_def a_def b_def)
  also have "\<dots> = 1 / 10 ^ 9" by simp
  finally show ?thesis
    by (simp add: within_tolerance_def pct X_def a_def b_def)
qed

lemma sum_list_word_of_int:
  "(sum_list ws :: int64) = word_of_int (sum_list (map sint ws))"
  by (induction ws) simp_all

lemma sint_sum_list:
  assumes "fits_int64 (sum_list (map sint ws))"
  shows "sint (sum_list ws :: int64) = sum_list (map sint ws)"
proof -
  have "sint (sum_list ws :: int64) = signed_take_bit 63 (sum_list (map sint ws))"
    by (simp add: sum_list_word_of_int [of ws] sint_sbintrunc')
  also have "\<dots> = sum_list (map sint ws)"
    using assms by (intro signed_take_bit_int_eq_self) (simp_all add: fits_int64_def)
  finally show ?thesis .
qed

subsection \<open>The collection cycle\<close>

lemma resolved_Nil: "resolved t p [] = []"
  by (simp add: resolved_def)

lemma resolved_Cons:
  "resolved t p (nm # items) =
     (case get_node t p (Name nm) of Inl e \<Rightarrow> [] | Inr c \<Rightarrow> [(nm, c)]) @ resolved t p items"
  by (simp add: resolved_def)

lemma db_log_Printf: "db (log_Printf msg e s) = db s"
  by (simp add: log_Printf_def)

lemma gather_totals_sums:
  "\<exists>s'. gather_totals t items (T, U, s) =
      (T + sum_list (map snd (resolved t 1 items)),
       U + sum_list (map (\<lambda>nc. UsageCpu (fst nc)) (resolved t 1 items)), s')
    \<and> db s' = db s"
proof (induction items arbitrary: T U s)
  case Nil
  show ?case by (simp add: resolved_Nil)
next
  case (Cons nm items)
  show ?case
  proof (cases "get_node t 1 (Name nm)")
    case (Inl e)
    with Cons [of T U "log_Printf ''Error getting node info: '' e s"] show ?thesis
      by (simp add: resolved_Cons db_log_Printf)
  next
    case (Inr c)
    with Cons [of "T + c" "U + UsageCpu nm" s] show ?thesis
      by (simp add: resolved_Cons add.assoc)
  qed
qed

lemma store_rows_db:
  "db (store_rows t pct tot items s) =
     insert_all (map (\<lambda>nc. metrics_row t pct tot (fst nc) (snd nc)) (written t items)) (db s)"
proof (induction items arbitrary: s)
  case Nil
  show ?case by (simp add: written_def resolved_Nil insert_all_Nil)
next
  case (Cons nm items)
  show ?case
  proof (cases "get_node t 2 (Name nm)")
    case (Inl e)
    with Cons [of s] show ?thesis by (simp add: written_def resolved_Cons)
  next
    case (Inr c)
    show ?thesis
    proof (cases "insert_err t (Name nm)")
      case None
      with Inr Cons [of "s\<lparr>db := sql_insert (metrics_row t pct tot nm c) (db s)\<rparr>"]
      show ?thesis by (simp add: written_def resolved_Cons exec_def insert_all_Cons)
    next
      case (Some e)
      with Inr Cons [of "log_Printf ''Error inserting metrics: '' e s"]
      show ?thesis by (simp add: written_def resolved_Cons exec_def db_log_Printf)
    qed
  qed
qed

lemma cycle_db:
  assumes "list_nodes t = Inr items" and "new_clientset t = None"
  shows "db (cycle t s) = insert_all (map (cycle_row t items) (written t items)) (db s)"
proof -
  from gather_totals_sums [of t items 0 0 s] obtain s' where
    g: "gather_totals t items (0, 0, s) = (cluster_total t items, cluster_used t items, s')"
    and s': "db s' = db s"
    by (auto simp: cluster_total_def cluster_used_def)
  have "(\<lambda>nc. metrics_row t (percentage (cluster_used t items) (cluster_total t items))
            (cluster_total t items) (fst nc) (snd nc)) = cycle_row t items"
    by (rule ext) (simp add: metrics_row_def cycle_row_def)
  with assms g s' show ?thesis
    by (simp add: cycle_unfold store_rows_db)
qed

lemma cycle_appends:
  assumes "list_nodes t = Inr items" and "new_clientset t = None"
  shows "\<exists>new. metrics (db (cycle t s)) = metrics (db s) @ new
     \<and> map snd new = map (cycle_row t items) (written t items)"
  using insert_all_appends [of "map (cycle_row t items) (written t items)" "db s"]
  by (simp add: cycle_db [OF assms])

lemma cycle_skipped:
  assumes "list_nodes t = Inl e \<or> (\<exists>items. list_nodes t = Inr items \<and> new_clientset t = Some e)"
  shows "db (cycle t s) = db s"
  using assms by (auto simp: cycle_unfold db_log_Printf)

lemma written_names:
  "map (\<lambda>nc. Name (fst nc)) (written t items) =
     map Name (filter (\<lambda>nm. \<not> isl (get_node t 2 (Name nm)) \<and> insert_err t (Name nm) = None) items)"
  by (induction items) (auto simp: written_def resolved_Nil resolved_Cons split: sum.splits)

lemma written_none:
  assumes "\<forall>nm\<in>set items. isl (get_node t 2 (Name nm))"
  shows "written t items = []"
  using assms by (induction items) (auto simp: written_def resolved_Nil resolved_Cons split: sum.splits)

lemma resolved_none:
  assumes "\<forall>nm\<in>set items. isl (get_node t p (Name nm))"
  shows "resolved t p items = []"
  using assms by (induction items) (auto simp: resolved_Nil resolved_Cons split: sum.splits)



lemma written_all:
  assumes "\<forall>nm\<in>set items. get_node t 2 (Name nm) = get_node t 1 (Name nm)"
    and "\<forall>nm\<in>set items. insert_err t (Name nm) = None"
  shows "written t items = resolved t 1 items"
  using assms by (induction items) (auto simp: written_def resolved_Nil resolved_Cons split: sum.splits)

lemma plausible_ratio:
  fixes u c :: int
  assumes "0 < c" "0 \<le> u" "u \<le> 10000 * c"
  shows "\<bar>100 * rat_of_int u / rat_of_int c\<bar> \<le> 10 ^ 6"
proof -
  have "rat_of_int u \<le> rat_of_int (10000 * c)" using assms(3) by (simp only: of_int_le_iff)
  then have "100 * rat_of_int u \<le> 10 ^ 6 * rat_of_int c" by simp
  then have "100 * rat_of_int u / rat_of_int c \<le> 10 ^ 6"
    using assms(1) by (simp add: pos_divide_le_eq)
  moreover have "0 \<le> 100 * rat_of_int u / rat_of_int c"
    using assms by simp
  ultimately show ?thesis by simp
qed

lemma plausible_sums:
  assumes "list_all (\<lambda>nc. 0 < sint (snd nc) \<and> 0 \<le> sint (UsageCpu (fst nc))
                 \<and> sint (UsageCpu (fst nc)) \<le> 10000 * sint (snd nc)) rs"
  shows "0 \<le> usage_sum rs \<and> usage_sum rs \<le> 10000 * capacity_sum rs
     \<and> 0 \<le> capacity_sum rs \<and> (rs \<noteq> [] \<longrightarrow> 0 < capacity_sum rs)"
  using assms by (induction rs) (auto simp: usage_sum_def capacity_sum_def)

lemma cluster_total_sint:
  assumes "fits_int64 (capacity_sum (resolved t 1 items))"
  shows "sint (cluster_total t items) = capacity_sum (resolved t 1 items)"
  using sint_sum_list [of "map snd (resolved t 1 items)"] assms
  by (simp add: cluster_total_def capacity_sum_def comp_def)

lemma cluster_used_sint:
  assumes "fits_int64 (usage_sum (resolved t 1 items))"
  shows "sint (cluster_used t items) = usage_sum (resolved t 1 items)"
  using sint_sum_list [of "map (\<lambda>nc. UsageCpu (fst nc)) (resolved t 1 items)"] assms
  by (simp add: cluster_used_def usage_sum_def comp_def)

lemma cycle_row_numbers:
  assumes pl: "plausible (resolved t 1 items)" and nc: "nc \<in> set (resolved t 1 items)"
  shows "sint (ClusterTotalCpu (cycle_row t items nc)) = capacity_sum (resolved t 1 items)
     \<and> within_tolerance (ClusterCpuUsage (cycle_row t items nc))
         (100 * rat_of_int (usage_sum (resolved t 1 items))
            / rat_of_int (capacity_sum (resolved t 1 items)))
     \<and> within_tolerance (CpuUsage (cycle_row t items nc))
         (100 * rat_of_int (sint (UsageCpu (fst nc))) / rat_of_int (sint (snd nc)))"
proof -
  let ?R = "resolved t 1 items"
  from pl have each: "list_all (\<lambda>nc. 0 < sint (snd nc) \<and> 0 \<le> sint (UsageCpu (fst nc))
                 \<and> sint (UsageCpu (fst nc)) \<le> 10000 * sint (snd nc)) ?R"
    and fits: "fits_int64 (capacity_sum ?R)" "fits_int64 (usage_sum ?R)"
    by (simp_all add: plausible_def)
  from nc have ne: "?R \<noteq> []" by auto
  from plausible_sums [OF each] ne
  have sums: "0 < capacity_sum ?R" "0 \<le> usage_sum ?R" "usage_sum ?R \<le> 10000 * capacity_sum ?R"
    by simp_all
  have tot: "sint (cluster_total t items) = capacity_sum ?R"
    by (rule cluster_total_sint [OF fits(1)])
  have used: "sint (cluster_used t items) = usage_sum ?R"
    by (rule cluster_used_sint [OF fits(2)])
  have c0: "sint (cluster_total t items) \<noteq> 0"
    using sums(1) tot by simp
  have bd: "\<bar>100 * rat_of_int (sint (cluster_used t items))
      / rat_of_int (sint (cluster_total t items))\<bar> \<le> 10 ^ 6"
    unfolding tot used by (rule plausible_ratio [OF sums])
  have "within_tolerance (percentage (cluster_used t items) (cluster_total t items))
      (100 * rat_of_int (sint (cluster_used t items)) / rat_of_int (sint (cluster_total t items)))"
    by (rule percentage_close [OF c0 bd])
  then have cluster: "within_tolerance (percentage (cluster_used t items) (cluster_total t items))
      (100 * rat_of_int (usage_sum ?R) / rat_of_int (capacity_sum ?R))"
    by (simp only: tot used)
  from each nc have n: "0 < sint (snd nc)" "0 \<le> sint (UsageCpu (fst nc))"
    "sint (UsageCpu (fst nc)) \<le> 10000 * sint (snd nc)"
    by (simp_all add: list_all_iff)
  have node: "within_tolerance (percentage (UsageCpu (fst nc)) (snd nc))
      (100 * rat_of_int (sint (UsageCpu (fst nc))) / rat_of_int (sint (snd nc)))"
  proof (rule percentage_close)
    show "sint (snd nc) \<noteq> 0" using n(1) by simp
    show "\<bar>100 * rat_of_int (sint (UsageCpu (fst nc))) / rat_of_int (sint (snd nc))\<bar> \<le> 10 ^ 6"
      by (rule plausible_ratio [OF n])
  qed
  from tot cluster node show ?thesis by (simp add: cycle_row_def)
qed

text \<open>
  C4, as the code has it. Take a cycle in which the listing and the clientset succeed,
  every node's \<open>Get\<close> answers the same in the second loop as in the first, and every
  \<open>INSERT\<close> succeeds; let \<open>N\<close> be the number of resolved nodes. Then exactly \<open>N\<close> rows are
  appended, one per resolved node in listing order, all with the same
  \<open>cluster_total_cpu\<close>, the \<open>int64\<close> sum of the resolved capacities, and the same
  \<open>cluster_cpu_usage\<close>. When the loads are plausible (capacities positive, usages between
  zero and ten thousand times the capacity, sums within \<open>int64\<close>), \<open>cluster_total_cpu\<close> is
  the sum of the capacities as an integer, \<open>cluster_cpu_usage\<close> is within \<open>1e-9\<close> of
  \<open>100 * sum used / sum capacity\<close>, and each row's \<open>cpu_usage\<close> is within \<open>1e-9\<close> of
  \<open>100 * used / capacity\<close> of its node.
\<close>

theorem cycle_rows_and_aggregates:
  assumes "list_nodes t = Inr items" and "new_clientset t = None"
    and "\<forall>nm\<in>set items. get_node t 2 (Name nm) = get_node t 1 (Name nm)"
    and "\<forall>nm\<in>set items. insert_err t (Name nm) = None"
  shows "\<exists>new. metrics (db (cycle t s)) = metrics (db s) @ new
     \<and> length new = length (resolved t 1 items)
     \<and> map snd new = map (cycle_row t items) (resolved t 1 items)
     \<and> (\<forall>ir\<in>set new. ClusterTotalCpu (snd ir) = cluster_total t items
           \<and> ClusterCpuUsage (snd ir) = percentage (cluster_used t items) (cluster_total t items))
     \<and> (plausible (resolved t 1 items) \<longrightarrow>
          list_all2 (\<lambda>ir nc.
              sint (ClusterTotalCpu (snd ir)) = capacity_sum (resolved t 1 items)
            \<and> within_tolerance (ClusterCpuUsage (snd ir))
                (100 * rat_of_int (usage_sum (resolved t 1 items))
                   / rat_of_int (capacity_sum (resolved t 1 items)))
            \<and> within_tolerance (CpuUsage (snd ir))
                (100 * rat_of_int (sint (UsageCpu (fst nc))) / rat_of_int (sint (snd nc))))
            new (resolved t 1 items))"
proof -
  let ?R = "resolved t 1 items"
  from cycle_appends [OF assms(1,2), of s] written_all [OF assms(3,4)]
  obtain new where new: "metrics (db (cycle t s)) = metrics (db s) @ new"
    and rows: "map snd new = map (cycle_row t items) ?R"
    by auto
  from rows have len: "length new = length ?R"
    by (metis length_map)
  have same: "\<forall>ir\<in>set new. ClusterTotalCpu (snd ir) = cluster_total t items
           \<and> ClusterCpuUsage (snd ir) = percentage (cluster_used t items) (cluster_total t items)"
  proof
    fix ir assume "ir \<in> set new"
    then have "snd ir \<in> set (map (cycle_row t items) ?R)"
      using rows by (metis image_eqI set_map)
    then obtain nc where "snd ir = cycle_row t items nc" by auto
    then show "ClusterTotalCpu (snd ir) = cluster_total t items
           \<and> ClusterCpuUsage (snd ir) = percentage (cluster_used t items) (cluster_total t items)"
      by (simp add: cycle_row_def)
  qed
  have numbers: "list_all2 (\<lambda>ir nc.
              sint (ClusterTotalCpu (snd ir)) = capacity_sum ?R
            \<and> within_tolerance (ClusterCpuUsage (snd ir))
                (100 * rat_of_int (usage_sum ?R) / rat_of_int (capacity_sum ?R))
            \<and> within_tolerance (CpuUsage (snd ir))
                (100 * rat_of_int (sint (UsageCpu (fst nc))) / rat_of_int (sint (snd nc))))
            new ?R" if "plausible ?R"
    unfolding list_all2_conv_all_nth
  proof (rule conjI)
    show "length new = length ?R" by (rule len)
  next
    show "\<forall>i<length new.
        sint (ClusterTotalCpu (snd (new ! i))) = capacity_sum ?R
      \<and> within_tolerance (ClusterCpuUsage (snd (new ! i)))
          (100 * rat_of_int (usage_sum ?R) / rat_of_int (capacity_sum ?R))
      \<and> within_tolerance (CpuUsage (snd (new ! i)))
          (100 * rat_of_int (sint (UsageCpu (fst (?R ! i)))) / rat_of_int (sint (snd (?R ! i))))"
    proof (intro allI impI)
      fix i assume i: "i < length new"
      then have mem: "?R ! i \<in> set ?R" using len by simp
      have "snd (new ! i) = map snd new ! i" using i by simp
      also have "\<dots> = cycle_row t items (?R ! i)" using i len by (simp only: rows) simp
      finally have row: "snd (new ! i) = cycle_row t items (?R ! i)" .
      show "sint (ClusterTotalCpu (snd (new ! i))) = capacity_sum ?R
        \<and> within_tolerance (ClusterCpuUsage (snd (new ! i)))
            (100 * rat_of_int (usage_sum ?R) / rat_of_int (capacity_sum ?R))
        \<and> within_tolerance (CpuUsage (snd (new ! i)))
            (100 * rat_of_int (sint (UsageCpu (fst (?R ! i)))) / rat_of_int (sint (snd (?R ! i))))"
        unfolding row by (rule cycle_row_numbers [OF that mem])
    qed
  qed
  from new len rows same numbers show ?thesis by blast
qed

theorem cycle_rows_and_aggregates_witness:
  "list_nodes steady_tick = Inr two_nodes \<and> new_clientset steady_tick = None
   \<and> plausible (resolved steady_tick 1 two_nodes)
   \<and> node_names (db (cycle steady_tick fresh)) = [''node-a'', ''node-b'']
   \<and> cpu_column (db (cycle steady_tick fresh)) = [Finite 50, Finite 25]
   \<and> cluster_columns (db (cycle steady_tick fresh))
       = [(Finite (2345624805922133 / 70368744177664), 3000),
          (Finite (2345624805922133 / 70368744177664), 3000)]
   \<and> (\<exists>new. metrics (db (cycle steady_tick fresh)) = metrics (db fresh) @ new
        \<and> length new = 2
        \<and> list_all2 (\<lambda>ir nc.
              sint (ClusterTotalCpu (snd ir)) = 3000
            \<and> within_tolerance (ClusterCpuUsage (snd ir)) (100 * 1000 / 3000)
            \<and> within_tolerance (CpuUsage (snd ir))
                (100 * rat_of_int (sint (UsageCpu (fst nc))) / rat_of_int (sint (snd nc))))
            new (resolved steady_tick 1 two_nodes))"
proof -
  have l: "list_nodes steady_tick = Inr two_nodes" and c: "new_clientset steady_tick = None"
    by (simp_all add: steady_tick_def)
  have same: "\<forall>nm\<in>set two_nodes. get_node steady_tick 2 (Name nm) = get_node steady_tick 1 (Name nm)"
    by (simp add: steady_tick_def capacities_def)
  have ins: "\<forall>nm\<in>set two_nodes. insert_err steady_tick (Name nm) = None"
    by (simp add: steady_tick_def inserts_succeed_def)
  have pl: "plausible (resolved steady_tick 1 two_nodes)" by code_simp
  have len: "length (resolved steady_tick 1 two_nodes) = 2" by code_simp
  have cap: "capacity_sum (resolved steady_tick 1 two_nodes) = 3000" by code_simp
  have use: "usage_sum (resolved steady_tick 1 two_nodes) = 1000" by code_simp
  have run: "node_names (db (cycle steady_tick fresh)) = [''node-a'', ''node-b'']
    \<and> cpu_column (db (cycle steady_tick fresh)) = [Finite 50, Finite 25]
    \<and> cluster_columns (db (cycle steady_tick fresh))
       = [(Finite (2345624805922133 / 70368744177664), 3000),
          (Finite (2345624805922133 / 70368744177664), 3000)]"
    by code_simp
  from cycle_rows_and_aggregates [OF l c same ins, of fresh] pl
  obtain new where "metrics (db (cycle steady_tick fresh)) = metrics (db fresh) @ new"
    "length new = length (resolved steady_tick 1 two_nodes)"
    "list_all2 (\<lambda>ir nc.
              sint (ClusterTotalCpu (snd ir)) = capacity_sum (resolved steady_tick 1 two_nodes)
            \<and> within_tolerance (ClusterCpuUsage (snd ir))
                (100 * rat_of_int (usage_sum (resolved steady_tick 1 two_nodes))
                   / rat_of_int (capacity_sum (resolved steady_tick 1 two_nodes)))
            \<and> within_tolerance (CpuUsage (snd ir))
                (100 * rat_of_int (sint (UsageCpu (fst nc))) / rat_of_int (sint (snd nc))))
            new (resolved steady_tick 1 two_nodes)"
    by blast
  then have "\<exists>new. metrics (db (cycle steady_tick fresh)) = metrics (db fresh) @ new
        \<and> length new = 2
        \<and> list_all2 (\<lambda>ir nc.
              sint (ClusterTotalCpu (snd ir)) = 3000
            \<and> within_tolerance (ClusterCpuUsage (snd ir)) (100 * 1000 / 3000)
            \<and> within_tolerance (CpuUsage (snd ir))
                (100 * rat_of_int (sint (UsageCpu (fst nc))) / rat_of_int (sint (snd nc))))
            new (resolved steady_tick 1 two_nodes)"
    unfolding len cap use by (intro exI [of _ new]) (simp del: of_int_sint)
  with l c pl run show ?thesis by blast
qed

text \<open>
  C4 as stated fails when a node is resolved by the second loop only: the first loop
  resolves one node, two rows are appended, and both carry the total 2000 and the
  percentage 25 of that one node, where the capacities of the two nodes written sum to
  3000 and their usage is a third of it. The tolerance also fails outside plausible
  loads: a usage of \<open>2^62 + 1\<close> on a capacity of 1 is stored a hundred away from
  \<open>100 * used / capacity\<close>.
\<close>

theorem resolved_twice_counterexample:
  "length (resolved flaky_tick 1 two_nodes) = 1
   \<and> node_names (db (cycle flaky_tick fresh)) = [''node-a'', ''node-b'']
   \<and> cluster_columns (db (cycle flaky_tick fresh)) = [(Finite 25, 2000), (Finite 25, 2000)]
   \<and> capacity_sum (resolved flaky_tick 2 two_nodes) = 3000
   \<and> usage_sum (resolved flaky_tick 2 two_nodes) = 1000
   \<and> \<not> within_tolerance (Finite 25) (100 * 1000 / 3000)
   \<and> percentage 4611686018427387905 1 = Finite 461168601842738790400
   \<and> \<not> within_tolerance (percentage 4611686018427387905 1) (100 * 4611686018427387905 / 1)"
  by code_simp

text \<open>
  C5, as the code has it. In a cycle whose listing and clientset succeed and in which no
  node is resolved by the second loop, the one that writes (so when the listing is empty,
  or when every \<open>Get\<close> fails in both loops), no row is written: the database is what it
  was, the body of the loop ends as every other does, and \<open>getMetrics\<close> answers as it did
  before the cycle.
\<close>

theorem unresolved_cycle_writes_nothing:
  assumes "list_nodes t = Inr items" and "new_clientset t = None"
    and "\<forall>nm\<in>set items. isl (get_node t 2 (Name nm))"
  shows "db (cycle t s) = db s
     \<and> loop_body t s = Continue (cycle t s)
     \<and> getMetrics tie errs (db (cycle t s)) = getMetrics tie errs (db s)"
proof -
  from assms(3) have "db (cycle t s) = db s"
    by (simp add: cycle_db [OF assms(1,2)] written_none insert_all_Nil)
  then show ?thesis by (simp add: loop_body_continues)
qed

theorem unresolved_cycle_writes_nothing_witness:
  "list_nodes unreachable_tick = Inr two_nodes \<and> new_clientset unreachable_tick = None
   \<and> resolved unreachable_tick 1 two_nodes = [] \<and> resolved unreachable_tick 2 two_nodes = []
   \<and> db (cycle unreachable_tick fresh) = db fresh
   \<and> loop_body unreachable_tick fresh = Continue (cycle unreachable_tick fresh)
   \<and> getMetrics scan_order no_errors (db (cycle unreachable_tick fresh)) = c_JSON 200 JNull"
proof -
  have l: "list_nodes unreachable_tick = Inr two_nodes"
    and c: "new_clientset unreachable_tick = None"
    by (simp_all add: unreachable_tick_def)
  have f: "\<forall>nm\<in>set two_nodes. isl (get_node unreachable_tick 2 (Name nm))"
    by (simp add: unreachable_tick_def no_capacities_def)
  have r: "resolved unreachable_tick 1 two_nodes = [] \<and> resolved unreachable_tick 2 two_nodes = []"
    by code_simp
  have g: "getMetrics scan_order no_errors (db fresh) = c_JSON 200 JNull"
    by code_simp
  from unresolved_cycle_writes_nothing [OF l c f, of fresh scan_order no_errors] l c r g
  show ?thesis by simp
qed

text \<open>
  C5 as stated fails: nothing guards the division. With no node resolved by the first
  loop and \<open>node-a\<close> resolved by the second, a row is written, with the cluster total 0
  and, for the cluster percentage, the NaN of zero by zero, which the table keeps as
  NULL; and \<open>getMetrics\<close>, which answered 200 before the cycle, answers 500 after it.
\<close>

theorem zero_resolved_counterexample:
  "resolved late_tick 1 one_node = []
   \<and> node_names (db (cycle late_tick fresh)) = [''node-a'']
   \<and> cpu_column (db (cycle late_tick fresh)) = [Finite 50]
   \<and> cluster_columns (db (cycle late_tick fresh)) = [(NaN, 0)]
   \<and> status (getMetrics scan_order no_errors (db fresh)) = 200
   \<and> status (getMetrics scan_order no_errors (db (cycle late_tick fresh))) = 500"
  by code_simp




subsection \<open>Immutability\<close>

lemma resetDB_cases: "snd (resetDB errs d) = d \<or> metrics (snd (resetDB errs d)) = []"
  by (simp add: resetDB_def exec_def sql_delete_metrics_def sql_delete_sequence_def
      split: option.splits)

lemma startBenchmark_appends:
  "\<exists>new. metrics (snd (startBenchmark tie err d)) = metrics d @ new"
proof (cases err)
  case None
  with insert_all_appends [of "benchmark_rows tie (metrics d)" d] show ?thesis
    by (auto simp: startBenchmark_def exec_def insert_select_def metrics_sql_insert_rows)
next
  case (Some e)
  then show ?thesis by (simp add: startBenchmark_def exec_def)
qed

lemma cycle_appends_always: "\<exists>new. metrics (db (cycle t s)) = metrics (db s) @ new"
proof (cases "list_nodes t")
  case (Inl e)
  then show ?thesis by (simp add: cycle_skipped)
next
  case (Inr items)
  show ?thesis
  proof (cases "new_clientset t")
    case None
    with Inr cycle_appends [of t items s] show ?thesis by blast
  next
    case (Some e)
    with Inr have "db (cycle t s) = db s" by (simp add: cycle_unfold db_log_Printf)
    then show ?thesis by simp
  qed
qed

lemma perform_appended_or_cleared: "appended_or_cleared x s (snd (perform x s))"
proof (cases x)
  case (Append t)
  with cycle_appends_always [of t s] show ?thesis by auto
next
  case (QueryAll tie errs)
  then show ?thesis by simp
next
  case (MarkBenchmark tie err)
  with startBenchmark_appends [of tie err "db s"] show ?thesis
    by (auto split: prod.splits)
next
  case (Reset errs)
  with resetDB_cases [of errs "db s"] show ?thesis
    by (auto split: prod.splits)
qed

text \<open>
  C8. Along every run of collection cycles, reads, benchmark snapshots and resets, from
  every state, each operation leaves the rows that were there as they were and in their
  places, followed by the rows it appends; only a reset can do otherwise, and then no
  row is left.
\<close>

theorem rows_never_modified: "each_step appended_or_cleared ops s"
  by (induction ops arbitrary: s) (simp_all add: perform_appended_or_cleared)

theorem rows_never_modified_witness:
  "each_step appended_or_cleared
     [Append steady_tick, MarkBenchmark scan_order None, QueryAll scan_order no_errors,
      Reset no_reset_errors, Append flaky_tick] fresh
   \<and> node_names (db (run [Append steady_tick, MarkBenchmark scan_order None] fresh))
       = [''node-a'', ''node-b'', ''node-a'']
   \<and> node_names (db (run [Append steady_tick, MarkBenchmark scan_order None,
        QueryAll scan_order no_errors, Reset no_reset_errors] fresh)) = []"
proof -
  have "node_names (db (run [Append steady_tick, MarkBenchmark scan_order None] fresh))
       = [''node-a'', ''node-b'', ''node-a'']
   \<and> node_names (db (run [Append steady_tick, MarkBenchmark scan_order None,
        QueryAll scan_order no_errors, Reset no_reset_errors] fresh)) = []"
    by code_simp
  with rows_never_modified
    [of "[Append steady_tick, MarkBenchmark scan_order None, QueryAll scan_order no_errors,
      Reset no_reset_errors, Append flaky_tick]" fresh]
  show ?thesis by blast
qed

subsection \<open>The primary key along a run\<close>

text \<open>
  No operation brings a rowid in twice, so every state a run reaches from the empty
  database satisfies the primary key.
\<close>

lemma primary_key_initDB: "primary_key initDB"
  by (simp add: primary_key_def initDB_def)

lemma primary_key_insert_all: "primary_key d \<Longrightarrow> primary_key (insert_all rs d)"
  by (induction rs arbitrary: d) (simp_all add: insert_all_Nil insert_all_Cons primary_key_sql_insert)

lemma primary_key_sql_insert_rows: "primary_key d \<Longrightarrow> primary_key (sql_insert_rows rs d)"
  using primary_key_insert_all [of d rs]
  by (simp add: primary_key_def metrics_sql_insert_rows)

lemma cycle_inserts: "\<exists>rs. db (cycle t s) = insert_all rs (db s)"
proof (cases "list_nodes t")
  case (Inl e)
  then have "db (cycle t s) = insert_all [] (db s)" by (simp add: cycle_skipped insert_all_Nil)
  then show ?thesis ..
next
  case (Inr items)
  show ?thesis
  proof (cases "new_clientset t")
    case None
    with Inr show ?thesis using cycle_db [of t items s] by blast
  next
    case (Some e)
    with Inr have "db (cycle t s) = insert_all [] (db s)"
      by (simp add: cycle_unfold db_log_Printf insert_all_Nil)
    then show ?thesis ..
  qed
qed

lemma primary_key_perform:
  assumes "primary_key (db s)"
  shows "primary_key (db (snd (perform x s)))"
proof (cases x)
  case (Append t)
  with cycle_inserts [of t s] assms show ?thesis
    by (auto simp: primary_key_insert_all)
next
  case (QueryAll tie errs)
  with assms show ?thesis by simp
next
  case (MarkBenchmark tie err)
  with assms show ?thesis
    by (cases err)
      (simp_all add: startBenchmark_def exec_def insert_select_def primary_key_sql_insert_rows)
next
  case (Reset errs)
  with resetDB_cases [of errs "db s"] assms show ?thesis
    by (auto simp: primary_key_def split: prod.splits)
qed

lemma primary_key_run: "primary_key (db s) \<Longrightarrow> primary_key (db (run ops s))"
  by (induction ops arbitrary: s) (simp_all add: primary_key_perform)

lemma primary_key_reachable: "primary_key (db (run ops fresh))"
  by (rule primary_key_run) (simp add: fresh_def primary_key_initDB)

subsection \<open>Reset in the simple variant\<close>

text \<open>
  C9. The simple variant's \<open>resetDB\<close>, when its one \<open>DELETE\<close> succeeds, answers 200,
  leaves no row and leaves \<open>sqlite_sequence\<close> as it was. If the sequence stood at \<open>n\<close>,
  the next row inserted gets the rowid \<open>n + 1\<close>, where after the transactional \<open>resetDB\<close>
  it would get 1.
\<close>

theorem resetDB_simple_keeps_sequence:
  "resetDB_simple None d = (c_Status StatusOK, \<lparr>metrics = [], sqlite_sequence = sqlite_sequence d\<rparr>)
   \<and> (sqlite_sequence d = Some n \<and> 1 \<le> n \<longrightarrow>
        next_rowid (snd (resetDB_simple None d)) = n + 1
      \<and> metrics (sql_insert r (snd (resetDB_simple None d))) = [(n + 1, r)]
      \<and> next_rowid (snd (resetDB no_reset_errors d)) = 1)"
  by (simp add: resetDB_simple_def exec_def sql_delete_metrics_def next_rowid_def max_rowid_def
      sql_insert_def resetDB_def no_reset_errors_def sql_delete_sequence_def)

theorem resetDB_simple_keeps_sequence_witness:
  "db (cycle_simple simple_tick fresh)
     = \<lparr>metrics =
          [(1, \<lparr>Timestamp_simple = 43200, NodeName_simple = ''node-a'', CpuUsage_simple = 500,
                MemoryUsage_simple = 4096, IsBenchmark_simple = False\<rparr>),
           (2, \<lparr>Timestamp_simple = 43200, NodeName_simple = ''node-b'', CpuUsage_simple = 500,
                MemoryUsage_simple = 8192, IsBenchmark_simple = False\<rparr>)],
        sqlite_sequence = Some 2\<rparr>
   \<and> resetDB_simple None (db (cycle_simple simple_tick fresh))
       = (c_Status StatusOK, \<lparr>metrics = [], sqlite_sequence = Some 2\<rparr>)
   \<and> map fst (metrics (db (cycle_simple simple_tick
        \<lparr>db = snd (resetDB_simple None (db (cycle_simple simple_tick fresh))), logs = []\<rparr>)))
       = [3, 4]"
proof -
  have run: "db (cycle_simple simple_tick fresh)
     = \<lparr>metrics =
          [(1, \<lparr>Timestamp_simple = 43200, NodeName_simple = ''node-a'', CpuUsage_simple = 500,
                MemoryUsage_simple = 4096, IsBenchmark_simple = False\<rparr>),
           (2, \<lparr>Timestamp_simple = 43200, NodeName_simple = ''node-b'', CpuUsage_simple = 500,
                MemoryUsage_simple = 8192, IsBenchmark_simple = False\<rparr>)],
        sqlite_sequence = Some 2\<rparr>
   \<and> map fst (metrics (db (cycle_simple simple_tick
        \<lparr>db = snd (resetDB_simple None (db (cycle_simple simple_tick fresh))), logs = []\<rparr>)))
       = [3, 4]"
    by code_simp
  then have seq: "sqlite_sequence (db (cycle_simple simple_tick fresh)) = Some 2" by simp
  from resetDB_simple_keeps_sequence [of "db (cycle_simple simple_tick fresh)" 2]
  have "resetDB_simple None (db (cycle_simple simple_tick fresh))
      = (c_Status StatusOK,
         \<lparr>metrics = [], sqlite_sequence = sqlite_sequence (db (cycle_simple simple_tick fresh))\<rparr>)"
    by (rule conjunct1)
  then have "resetDB_simple None (db (cycle_simple simple_tick fresh))
      = (c_Status StatusOK, \<lparr>metrics = [], sqlite_sequence = Some 2\<rparr>)"
    by (simp only: seq)
  with run show ?thesis by blast
qed

end
